theory Spec2Isabelle
  imports Main "HOL-Library.Word" "HOL-Library.Sublist" "HOL-Library.AList" "HOL-Library.Multiset"
    "HOL-Library.Product_Lexorder" "HOL-Library.List_Lexorder"
begin

unbundle bit_operations_syntax

section \<open>Strings, errors and outcomes\<close>

text \<open>
  A JavaScript string is a sequence of UTF-16 code units; \<open>.length\<close>, \<open>.slice\<close> and
  \<open>.trim\<close> count and cut code units. Strings whose length matters (commands, captured
  output, file content, file names) are therefore lists of 16-bit words. Identifiers and
  messages that are only compared or concatenated (session ids, hosts, error texts) are
  plain \<open>string\<close>s.
\<close>

type_synonym jsstring = "16 word list"
type_synonym bytes = "8 word list"

text \<open>
  Errors are values. \<open>throw new Error(text)\<close> and \<open>reject(new Error(text))\<close> are
  \<open>Error text\<close>; a failed \<open>Schema.parse\<close> of zod is \<open>ZodError\<close> with the paths of the
  offending fields; \<open>RangeError\<close> stands for the error that the transport library's read
  stream throws for a bad range; \<open>AutoConnectFailed e\<close> is the error \<open>autoConnect\<close> builds
  around the message of \<open>e\<close>.
\<close>

datatype error =
    ZodError "string list"
  | Error string
  | RangeError
  | AutoConnectFailed error

text \<open>Decimal rendering of a number inside a template string.\<close>

function show_nat :: "nat \<Rightarrow> string" where
  "show_nat n =
     (if n < 10 then [char_of (48 + n)]
      else show_nat (n div 10) @ [char_of (48 + n mod 10)])"
  by pat_completeness auto
termination
  by (relation "measure id") auto

declare show_nat.simps [simp del]

definition show_int :: "int \<Rightarrow> string" where
  "show_int i = (if i < 0 then CHR ''-'' # show_nat (nat (- i)) else show_nat (nat i))"

text \<open>
  An awaited operation settles with a value, settles with an error, or never settles
  (the event it waits for is never emitted).
\<close>

datatype 'a outcome = Resolved 'a | Rejected error | Pending

text \<open>JavaScript truthiness of an optional string: \<open>undefined\<close> and \<open>""\<close> are falsy.\<close>

fun truthy :: "'a list option \<Rightarrow> bool" where
  "truthy None = False"
| "truthy (Some s) = (s \<noteq> [])"

section \<open>Constants (constants.ts)\<close>

definition CHARACTER_LIMIT :: nat where
  \<comment> \<open>Modelled from the spec: \<open>src/constants.ts\<close> is not among the sources; the spec
      and the README give the character budget of captured output and of file reads
      as 25 000.\<close>
  "CHARACTER_LIMIT = 25000"

definition COMMAND_MAX_CHARS :: nat where
  \<comment> \<open>Modelled from the spec: \<open>src/constants.ts\<close> is not among the sources; the spec
      and the README give the command length limit as 1 000 characters.\<close>
  "COMMAND_MAX_CHARS = 1000"

section \<open>Command validation (utils/validation.ts)\<close>

text \<open>
  \<open>String.prototype.trim\<close> removes leading and trailing code units that are ECMAScript
  WhiteSpace or LineTerminator: TAB, LF, VT, FF, CR, SP, NBSP, the Unicode space
  separators, LS, PS and the byte order mark.
\<close>

definition isWhiteSpace :: "16 word \<Rightarrow> bool" where
  "isWhiteSpace c \<longleftrightarrow>
     c \<in> {0x09, 0x0A, 0x0B, 0x0C, 0x0D, 0x20, 0xA0, 0x1680,
          0x2000, 0x2001, 0x2002, 0x2003, 0x2004, 0x2005, 0x2006, 0x2007, 0x2008, 0x2009, 0x200A,
          0x2028, 0x2029, 0x202F, 0x205F, 0x3000, 0xFEFF}"

definition trimStart :: "jsstring \<Rightarrow> jsstring" where
  "trimStart s = dropWhile isWhiteSpace s"

definition trimEnd :: "jsstring \<Rightarrow> jsstring" where
  "trimEnd s = rev (dropWhile isWhiteSpace (rev s))"

definition trim :: "jsstring \<Rightarrow> jsstring" where
  "trim s = trimEnd (trimStart s)"

text \<open>
  \<open>sanitizeCommand\<close>: the \<open>typeof command !== "string"\<close> guard cannot fire on a value of
  type \<open>jsstring\<close>; \<open>!trimmed\<close> holds exactly for the empty string.
\<close>

definition sanitizeCommand :: "jsstring \<Rightarrow> error + jsstring" where
  "sanitizeCommand command =
     (let trimmed = trim command in
      if trimmed = [] then Inl (Error ''command cannot be empty'')
      else if length trimmed > COMMAND_MAX_CHARS
        then Inl (Error (''command exceeds '' @ show_nat COMMAND_MAX_CHARS @ '' characters''))
      else Inr trimmed)"

section \<open>Session registry (services/session-registry.ts)\<close>

record SessionRecord =
  sessionId :: string
  host :: string
  port :: int
  username :: string
  client :: nat
  createdAt :: int
  lastUsedAt :: "int option"

text \<open>
  The registry is a JavaScript \<open>Map\<close>: keys are unique, iteration follows insertion
  order. It is an association list; \<open>Map.set\<close> is \<open>AList.update\<close> (a present key keeps
  its place, a new key goes last), \<open>Map.delete\<close> is \<open>AList.delete\<close>, \<open>Map.get\<close> is
  \<open>map_of\<close>.
\<close>

type_synonym SessionRegistry = "(string \<times> SessionRecord) list"

text \<open>\<open>randomUUID()\<close> and \<open>new Date()\<close> are read from the environment: arguments here.\<close>

definition createSession ::
  "string \<Rightarrow> int \<Rightarrow> string \<Rightarrow> int \<Rightarrow> string \<Rightarrow> nat \<Rightarrow> SessionRegistry
     \<Rightarrow> SessionRecord \<times> SessionRegistry" where
  "createSession uuid now h p u c reg =
     (let record = \<lparr>sessionId = uuid, host = h, port = p, username = u, client = c,
                     createdAt = now, lastUsedAt = None\<rparr>
      in (record, AList.update uuid record reg))"

definition getSession :: "SessionRegistry \<Rightarrow> string \<Rightarrow> SessionRecord option" where
  "getSession reg sid = map_of reg sid"

definition listSessions :: "SessionRegistry \<Rightarrow> SessionRecord list" where
  "listSessions reg = map snd reg"

definition removeSession :: "SessionRegistry \<Rightarrow> string \<Rightarrow> SessionRecord option \<times> SessionRegistry" where
  "removeSession reg sid =
     (case map_of reg sid of
        Some record \<Rightarrow> (Some record, AList.delete sid reg)
      | None \<Rightarrow> (None, reg))"

definition touchSession :: "int \<Rightarrow> SessionRegistry \<Rightarrow> string \<Rightarrow> SessionRegistry" where
  "touchSession now reg sid =
     (case map_of reg sid of
        Some record \<Rightarrow> AList.update sid (record\<lparr>lastUsedAt := Some now\<rparr>) reg
      | None \<Rightarrow> reg)"


section \<open>Transport session (services/ssh-client.ts)\<close>

record SshClientConfig =
  c_host :: string
  c_port :: int
  c_username :: string
  c_password :: "string option"
  privateKey :: "string option"
  privateKeyPath :: "string option"
  c_passphrase :: "string option"
  c_timeout :: "int option"
  connectTimeout :: "int option"

definition DEFAULT_EXEC_TIMEOUT :: int where
  "DEFAULT_EXEC_TIMEOUT = 30000"

definition DEFAULT_CONNECT_TIMEOUT :: int where
  "DEFAULT_CONNECT_TIMEOUT = 10000"

text \<open>
  An \<open>SshClient\<close> object: its configuration, its \<open>connected\<close> flag and the identity of
  the \<open>ssh2\<close> \<open>Client\<close> it owns.
\<close>

record SshClient =
  config :: SshClientConfig
  connected :: bool
  handle :: nat

text \<open>The \<open>ConnectConfig\<close> handed to \<open>Client.connect\<close> of the transport library.\<close>

record ConnectConfig =
  cc_host :: string
  cc_port :: int
  cc_username :: string
  readyTimeout :: int
  cc_password :: "string option"
  cc_privateKey :: "string option"
  cc_passphrase :: "string option"

text \<open>
  What reaches the network is recorded: \<open>ClientConnect cfg t\<close> is a handshake started
  with \<open>Client.connect(cfg)\<close> and raced against a timer of \<open>t\<close> milliseconds.
\<close>

datatype wire_event = ClientConnect ConnectConfig int | ClientEnd

text \<open>
  What the world answers to a connection attempt: the content of the key file (or the
  message of the read error), and which event settles the race: \<open>ready\<close>, \<open>error\<close>,
  the timer, or an exception thrown by \<open>Client.connect\<close> itself.
\<close>

datatype handshake = Ready | TransportError string | TimerFired | ConnectThrows string

definition effectiveConnectTimeout :: "SshClientConfig \<Rightarrow> int" where
  \<comment> \<open>\<open>this.config.connectTimeout ?? DEFAULT_CONNECT_TIMEOUT\<close>\<close>
  "effectiveConnectTimeout cfg =
     (case connectTimeout cfg of None \<Rightarrow> DEFAULT_CONNECT_TIMEOUT | Some t \<Rightarrow> t)"

definition buildConnectConfig :: "SshClientConfig \<Rightarrow> string option \<Rightarrow> ConnectConfig" where
  "buildConnectConfig cfg key =
     \<lparr>cc_host = c_host cfg, cc_port = c_port cfg, cc_username = c_username cfg,
      readyTimeout = effectiveConnectTimeout cfg,
      cc_password = (if truthy (c_password cfg) then c_password cfg else None),
      cc_privateKey = key,
      cc_passphrase = (if key \<noteq> None \<and> truthy (c_passphrase cfg) then c_passphrase cfg else None)\<rparr>"

definition SshClient_connect ::
  "(string + string) \<Rightarrow> handshake \<Rightarrow> SshClient \<Rightarrow> (string + unit) \<times> SshClient \<times> wire_event list" where
  "SshClient_connect keyFile hs c =
     (let cfg = config c;
          t = effectiveConnectTimeout cfg;
          settle = (\<lambda>key.
            let w = ClientConnect (buildConnectConfig cfg key) t in
            case hs of
              Ready \<Rightarrow> (Inr (), c\<lparr>connected := True\<rparr>, [w])
            | TransportError m \<Rightarrow> (Inl (''SSH connection error: '' @ m), c\<lparr>connected := False\<rparr>, [w])
            | TimerFired \<Rightarrow> (Inl (''Connection timeout after '' @ show_int t @ ''ms''), c, [w, ClientEnd])
            | ConnectThrows m \<Rightarrow> (Inl m, c, []))
      in if truthy (privateKey cfg) then settle (privateKey cfg)
         else if truthy (privateKeyPath cfg) then
           (case keyFile of
              Inl m \<Rightarrow> (Inl (''Failed to read private key: '' @ m), c, [])
            | Inr k \<Rightarrow> settle (Some k))
         else settle None)"

subsection \<open>Command execution\<close>

record ExecResult =
  stdout :: jsstring
  stderr :: jsstring
  exitCode :: "int option"
  truncated :: bool

text \<open>
  The events that reach the callbacks of \<open>execCommand\<close>, in the order the event loop
  delivers them: the \<open>exec\<close> callback called with an error, \<open>data\<close> on the channel and on
  its stderr stream, \<open>exit\<close>, \<open>close\<close>, \<open>error\<close>, and the execution timer.
\<close>

datatype chan_event =
    ExecError string
  | Data jsstring
  | StderrData jsstring
  | Exit "int option"
  | Close
  | ChanError string
  | TimerFires

text \<open>The variables the callbacks close over, and the state of the promise.\<close>

record ExecState =
  acc :: ExecResult
  timedOut :: bool
  timerCleared :: bool
  settled :: "ExecResult outcome"

text \<open>A promise settles once: later calls of \<open>resolve\<close> and \<open>reject\<close> do nothing.\<close>

definition settle :: "ExecResult outcome \<Rightarrow> ExecState \<Rightarrow> ExecState" where
  "settle r st = (case settled st of Pending \<Rightarrow> st\<lparr>settled := r\<rparr> | _ \<Rightarrow> st)"

text \<open>\<open>chunk.slice(0, e)\<close>: a negative end counts from the end of the string.\<close>

definition slice0 :: "int \<Rightarrow> 'a list \<Rightarrow> 'a list" where
  "slice0 e xs = (if e < 0 then take (nat (int (length xs) + e)) xs else take (nat e) xs)"

definition capture :: "jsstring \<Rightarrow> jsstring \<Rightarrow> jsstring \<times> bool" where
  \<comment> \<open>the body of a \<open>data\<close> callback: the new captured string, and whether it overflowed\<close>
  "capture captured chunk =
     (if length captured + length chunk > CHARACTER_LIMIT
      then (captured @ slice0 (int CHARACTER_LIMIT - int (length captured)) chunk, True)
      else (captured @ chunk, False))"

fun onEvent :: "int \<Rightarrow> chan_event \<Rightarrow> ExecState \<Rightarrow> ExecState" where
  "onEvent t (Data chunk) st =
     (if timedOut st then st
      else let (out, over) = capture (stdout (acc st)) chunk
           in st\<lparr>acc := (acc st)\<lparr>stdout := out, truncated := (over \<or> truncated (acc st))\<rparr>\<rparr>)"
| "onEvent t (StderrData chunk) st =
     (if timedOut st then st
      else let (err, over) = capture (stderr (acc st)) chunk
           in st\<lparr>acc := (acc st)\<lparr>stderr := err, truncated := (over \<or> truncated (acc st))\<rparr>\<rparr>)"
| "onEvent t (Exit code) st = st\<lparr>acc := (acc st)\<lparr>exitCode := code\<rparr>\<rparr>"
| "onEvent t Close st =
     (if timedOut st then st
      else settle (Resolved (acc st)) (st\<lparr>timerCleared := True\<rparr>))"
| "onEvent t (ChanError m) st =
     (if timedOut st then st
      else settle (Rejected (Error (''Channel error: '' @ m))) (st\<lparr>timerCleared := True\<rparr>))"
| "onEvent t TimerFires st =
     (if timerCleared st then st
      else settle (Rejected (Error (''Command execution timeout after '' @ show_int t @ ''ms'')))
             (st\<lparr>timedOut := True\<rparr>))"
| "onEvent t (ExecError m) st =
     settle (Rejected (Error (''Failed to execute command: '' @ m))) (st\<lparr>timerCleared := True\<rparr>)"

text \<open>
  When the \<open>exec\<close> callback is called with an error there is no channel: no further
  event is delivered.
\<close>

fun runEvents :: "int \<Rightarrow> chan_event list \<Rightarrow> ExecState \<Rightarrow> ExecState" where
  "runEvents t [] st = st"
| "runEvents t (ExecError m # es) st = onEvent t (ExecError m) st"
| "runEvents t (e # es) st = runEvents t es (onEvent t e st)"

definition initialExecState :: ExecState where
  "initialExecState =
     \<lparr>acc = \<lparr>stdout = [], stderr = [], exitCode = None, truncated = False\<rparr>,
      timedOut = False, timerCleared = False, settled = Pending\<rparr>"

definition execCommand :: "chan_event list \<Rightarrow> SshClient \<Rightarrow> jsstring \<Rightarrow> ExecResult outcome" where
  "execCommand events c command =
     (if \<not> connected c then Rejected (Error ''Not connected'')
      else let execTimeout = (case c_timeout (config c) of None \<Rightarrow> DEFAULT_EXEC_TIMEOUT | Some t \<Rightarrow> t)
           in settled (runEvents execTimeout events initialExecState))"

text \<open>
  The raw output of a stream: what the remote side sent on it until the channel closed,
  that is, the chunks of the stream up to the first \<open>close\<close>.
\<close>

fun rawStdout :: "chan_event list \<Rightarrow> jsstring" where
  "rawStdout [] = []"
| "rawStdout (Close # es) = []"
| "rawStdout (Data chunk # es) = chunk @ rawStdout es"
| "rawStdout (e # es) = rawStdout es"

fun rawStderr :: "chan_event list \<Rightarrow> jsstring" where
  "rawStderr [] = []"
| "rawStderr (Close # es) = []"
| "rawStderr (StderrData chunk # es) = chunk @ rawStderr es"
| "rawStderr (e # es) = rawStderr es"

subsection \<open>Closing\<close>

text \<open>
  What \<open>Client.end()\<close> leads to: the \<open>close\<close> event is emitted, \<open>end\<close> itself throws, or
  the \<open>close\<close> event never comes.
\<close>

datatype end_behaviour = EndCloses | EndThrows string | EndNeverCloses

definition SshClient_close :: "end_behaviour \<Rightarrow> SshClient \<Rightarrow> unit outcome \<times> SshClient" where
  "SshClient_close b c =
     (if \<not> connected c then (Resolved (), c)
      else case b of
             EndCloses \<Rightarrow> (Resolved (), c\<lparr>connected := False\<rparr>)
           | EndThrows m \<Rightarrow> (Rejected (Error m), c)
           | EndNeverCloses \<Rightarrow> (Pending, c))"

section \<open>Transfer channel handle (services/sftp-client.ts)\<close>

text \<open>
  An \<open>SftpClient\<close> object: the transport client it was built from and its \<open>sftp\<close>
  field, \<open>null\<close> before \<open>init()\<close> and after \<open>close()\<close>.
\<close>

record SftpClient =
  sftp_client :: nat
  sftp :: "nat option"

text \<open>What \<open>client.sftp(callback)\<close> answers: a wrapper, an error, or nothing ever.\<close>

datatype sftp_init = InitOk nat | InitError string | InitNever

definition SftpClient_init :: "sftp_init \<Rightarrow> SftpClient \<Rightarrow> unit outcome \<times> SftpClient" where
  "SftpClient_init i sc =
     (case i of
        InitOk w \<Rightarrow> (Resolved (), sc\<lparr>sftp := Some w\<rparr>)
      | InitError m \<Rightarrow> (Rejected (Error (''Failed to initialize SFTP: '' @ m)), sc)
      | InitNever \<Rightarrow> (Pending, sc))"

definition ensureSftp :: "SftpClient \<Rightarrow> error + nat" where
  "ensureSftp sc =
     (case sftp sc of
        None \<Rightarrow> Inl (Error ''SFTP not initialized. Call init() first.'')
      | Some w \<Rightarrow> Inr w)"

text \<open>\<open>close()\<close>: \<open>sftp.end()\<close> may throw; then the field is not cleared.\<close>

definition SftpClient_close :: "string option \<Rightarrow> SftpClient \<Rightarrow> (error + unit) \<times> SftpClient" where
  "SftpClient_close throws sc =
     (case sftp sc of
        None \<Rightarrow> (Inr (), sc)
      | Some w \<Rightarrow>
          (case throws of
             Some m \<Rightarrow> (Inl (Error m), sc)
           | None \<Rightarrow> (Inr (), sc\<lparr>sftp := None\<rparr>)))"

section \<open>Session orchestrator (tools/ssh-tools.ts)\<close>

subsection \<open>Parameter schemas\<close>

text \<open>
  The parameter records have the types that \<open>z.infer\<close> gives them. Numbers are
  integers here, so the \<open>.int()\<close> check of a schema cannot fail; every other check of a
  schema is one issue of the \<open>ZodError\<close>, named by the path of its field.
\<close>

record ConnectParams =
  p_host :: string
  p_port :: int
  p_username :: string
  password :: "string option"
  private_key :: "string option"
  private_key_path :: "string option"
  passphrase :: "string option"
  timeout :: "int option"
  connect_timeout :: "int option"

definition outside :: "int \<Rightarrow> int \<Rightarrow> int option \<Rightarrow> bool" where
  "outside lo hi v = (case v of None \<Rightarrow> False | Some x \<Rightarrow> x < lo \<or> hi < x)"

definition ConnectParamsSchema_issues :: "ConnectParams \<Rightarrow> string list" where
  "ConnectParamsSchema_issues p =
     (if p_host p = [] then [''host''] else [])
     @ (if p_port p < 1 \<or> 65535 < p_port p then [''port''] else [])
     @ (if p_username p = [] then [''username''] else [])
     @ (if outside 1000 300000 (timeout p) then [''timeout''] else [])
     @ (if outside 1000 60000 (connect_timeout p) then [''connect_timeout''] else [])"

definition ConnectParamsSchema_parse :: "ConnectParams \<Rightarrow> error + ConnectParams" where
  "ConnectParamsSchema_parse p =
     (if ConnectParamsSchema_issues p = [] then Inr p else Inl (ZodError (ConnectParamsSchema_issues p)))"

record ExecParams =
  session_id :: "string option"
  command :: jsstring
  exec_timeout :: "int option"

definition ExecParamsSchema_issues :: "ExecParams \<Rightarrow> string list" where
  "ExecParamsSchema_issues p =
     (if command p = [] then [''command''] else [])
     @ (if outside 1000 300000 (exec_timeout p) then [''timeout''] else [])"

definition ExecParamsSchema_parse :: "ExecParams \<Rightarrow> error + ExecParams" where
  "ExecParamsSchema_parse p =
     (if ExecParamsSchema_issues p = [] then Inr p else Inl (ZodError (ExecParamsSchema_issues p)))"

subsection \<open>State\<close>

record ServerConfig =
  s_host :: string
  s_port :: int
  s_username :: string
  s_password :: "string option"
  s_privateKey :: "string option"
  s_privateKeyPath :: "string option"
  s_passphrase :: "string option"

record GlobalConfig =
  server :: "ServerConfig option"
  g_timeout :: "int option"
  g_connectTimeout :: "int option"

record SshToolHandlers =
  registry :: SessionRegistry
  clients :: "string \<rightharpoonup> SshClient"
  sftpClients :: "string \<rightharpoonup> SftpClient"
  globalConfig :: GlobalConfig
  defaultSessionId :: "string option"

definition newHandlers :: "GlobalConfig \<Rightarrow> SshToolHandlers" where
  "newHandlers cfg =
     \<lparr>registry = [], clients = Map.empty, sftpClients = Map.empty, globalConfig = cfg,
      defaultSessionId = None\<rparr>"

definition getEffectiveSessionId :: "SshToolHandlers \<Rightarrow> string option \<Rightarrow> error + string" where
  "getEffectiveSessionId s sid =
     (if truthy sid then Inr (the sid)
      else if truthy (defaultSessionId s) then Inr (the (defaultSessionId s))
      else Inl (Error ''No session_id provided and no default session available. Please connect first or configure server in environment variables.''))"

text \<open>
  \<open>getSftpClient\<close> has one \<open>await\<close>, at \<open>sftpClient.init()\<close>. Up to it the function looks
  the session up in both maps and builds the channel object; it goes on when \<open>init()\<close>
  has settled, in the state the orchestrator has by then, and only then stores the
  channel in \<open>sftpClients\<close>.
\<close>

datatype sftp_lookup = Cached SftpClient | Missing error | Initialising SftpClient

definition getSftpClient_begin :: "string \<Rightarrow> SshToolHandlers \<Rightarrow> sftp_lookup" where
  "getSftpClient_begin sid s =
     (case sftpClients s sid of
        Some sc \<Rightarrow> Cached sc
      | None \<Rightarrow>
          (case clients s sid of
             None \<Rightarrow> Missing (Error (''Client not found for session: '' @ sid))
           | Some sshClient \<Rightarrow> Initialising \<lparr>sftp_client = handle sshClient, sftp = None\<rparr>))"

definition getSftpClient_resume ::
  "sftp_init \<Rightarrow> string \<Rightarrow> SftpClient \<Rightarrow> SshToolHandlers \<Rightarrow> SftpClient outcome \<times> SshToolHandlers" where
  "getSftpClient_resume i sid sc0 s =
     (case SftpClient_init i sc0 of
        (Resolved u, sc) \<Rightarrow> (Resolved sc, s\<lparr>sftpClients := (sftpClients s)(sid \<mapsto> sc)\<rparr>)
      | (Rejected e, sc) \<Rightarrow> (Rejected e, s)
      | (Pending, sc) \<Rightarrow> (Pending, s))"

text \<open>
  \<open>getSftpClient\<close> when nothing else runs while \<open>init()\<close> is awaited: the second part
  starts in the state the first part left.
\<close>

definition getSftpClient ::
  "sftp_init \<Rightarrow> string \<Rightarrow> SshToolHandlers \<Rightarrow> SftpClient outcome \<times> SshToolHandlers" where
  "getSftpClient i sid s =
     (case getSftpClient_begin sid s of
        Cached sc \<Rightarrow> (Resolved sc, s)
      | Missing e \<Rightarrow> (Rejected e, s)
      | Initialising sc0 \<Rightarrow> getSftpClient_resume i sid sc0 s)"

subsection \<open>connect and autoConnect\<close>

text \<open>
  The environment of a connection attempt: the key file's content or read error, the
  event that settles the handshake, the identity of the new transport client, the
  value of \<open>randomUUID()\<close> and the clock.
\<close>

record ConnectEnv =
  keyFile :: "string + string"
  handshake :: handshake
  newClient :: nat
  uuid :: string
  clock :: int

record ConnectResult =
  r_session_id :: string
  r_message :: string

definition clientConfigOf :: "ConnectParams \<Rightarrow> SshClientConfig" where
  \<comment> \<open>the \<open>clientConfig\<close> object that \<open>connect\<close> builds from the validated parameters\<close>
  "clientConfigOf validated =
     \<lparr>c_host = p_host validated, c_port = p_port validated,
      c_username = p_username validated, c_password = password validated,
      privateKey = private_key validated, privateKeyPath = private_key_path validated,
      c_passphrase = passphrase validated, c_timeout = timeout validated,
      connectTimeout = connect_timeout validated\<rparr>"

definition connect ::
  "ConnectEnv \<Rightarrow> ConnectParams \<Rightarrow> SshToolHandlers
     \<Rightarrow> ConnectResult outcome \<times> SshToolHandlers \<times> wire_event list" where
  "connect env params s =
     (case ConnectParamsSchema_parse params of
        Inl e \<Rightarrow> (Rejected e, s, [])
      | Inr validated \<Rightarrow>
          if \<not> truthy (password validated) \<and> \<not> truthy (private_key validated)
             \<and> \<not> truthy (private_key_path validated)
          then (Rejected (Error ''At least one authentication method is required (password, private_key, or private_key_path)''), s, [])
          else
            let clientConfig = clientConfigOf validated;
                client0 = \<lparr>config = clientConfig, connected = False, handle = newClient env\<rparr>
            in (case SshClient_connect (keyFile env) (handshake env) client0 of
                  (Inl m, client1, wire) \<Rightarrow> (Rejected (Error (''Failed to connect: '' @ m)), s, wire)
                | (Inr u, client1, wire) \<Rightarrow>
                    let (session, reg) =
                          createSession (uuid env) (clock env) (p_host validated) (p_port validated)
                            (p_username validated) (handle client1) (registry s)
                    in (Resolved \<lparr>r_session_id = sessionId session,
                           r_message = ''Connected to '' @ p_username validated @ ''@''
                             @ p_host validated @ '':'' @ show_int (p_port validated)\<rparr>,
                        s\<lparr>registry := reg, clients := (clients s)(sessionId session \<mapsto> client1)\<rparr>,
                        wire)))"

definition autoConnect ::
  "ConnectEnv \<Rightarrow> SshToolHandlers \<Rightarrow> string option outcome \<times> SshToolHandlers \<times> wire_event list" where
  "autoConnect env s =
     (case server (globalConfig s) of
        None \<Rightarrow> (Resolved None, s, [])
      | Some sc \<Rightarrow>
          (case connect env
                  \<lparr>p_host = s_host sc, p_port = s_port sc, p_username = s_username sc,
                   password = s_password sc, private_key = s_privateKey sc,
                   private_key_path = s_privateKeyPath sc, passphrase = s_passphrase sc,
                   timeout = g_timeout (globalConfig s),
                   connect_timeout = g_connectTimeout (globalConfig s)\<rparr> s of
             (Resolved r, s1, wire) \<Rightarrow>
               (Resolved (Some (r_session_id r)), s1\<lparr>defaultSessionId := Some (r_session_id r)\<rparr>, wire)
           | (Rejected e, s1, wire) \<Rightarrow> (Rejected (AutoConnectFailed e), s1, wire)
           | (Pending, s1, wire) \<Rightarrow> (Pending, s1, wire)))"

subsection \<open>exec\<close>

definition exec ::
  "int \<Rightarrow> chan_event list \<Rightarrow> ExecParams \<Rightarrow> SshToolHandlers \<Rightarrow> ExecResult outcome \<times> SshToolHandlers" where
  "exec now events params s =
     (case ExecParamsSchema_parse params of
        Inl e \<Rightarrow> (Rejected e, s)
      | Inr validated \<Rightarrow>
          (case getEffectiveSessionId s (session_id validated) of
             Inl e \<Rightarrow> (Rejected e, s)
           | Inr sid \<Rightarrow>
               (case getSession (registry s) sid of
                  None \<Rightarrow> (Rejected (Error (''Session not found: '' @ sid)), s)
                | Some session \<Rightarrow>
                    (case clients s sid of
                       None \<Rightarrow> (Rejected (Error (''Client not found for session: '' @ sid)), s)
                     | Some c \<Rightarrow>
                         (case sanitizeCommand (command validated) of
                            Inl e \<Rightarrow> (Rejected e, s)
                          | Inr cmd \<Rightarrow>
                              (execCommand events c cmd,
                               s\<lparr>registry := touchSession now (registry s) sid\<rparr>))))))"

subsection \<open>disconnect and cleanup\<close>

text \<open>
  How the closing of one session's handles goes: whether \<open>sftp.end()\<close> throws, and what
  \<open>Client.end()\<close> leads to.
\<close>

record CloseEnv =
  sftpEndThrows :: "string \<Rightarrow> string option"
  clientEnd :: "string \<Rightarrow> end_behaviour"

record DisconnectResult =
  d_success :: bool
  d_message :: string

text \<open>
  \<open>disconnect\<close> served with nothing in between: what \<open>client.close()\<close> leads to is
  known when the handler is called.
\<close>

definition disconnect ::
  "CloseEnv \<Rightarrow> string option \<Rightarrow> SshToolHandlers \<Rightarrow> DisconnectResult outcome \<times> SshToolHandlers" where
  "disconnect env session_id_param s =
     (case getEffectiveSessionId s session_id_param of
        Inl e \<Rightarrow> (Rejected e, s)
      | Inr sid \<Rightarrow>
          (case getSession (registry s) sid of
             None \<Rightarrow> (Rejected (Error (''Session not found: '' @ sid)), s)
           | Some session \<Rightarrow>
               (case (case sftpClients s sid of
                        None \<Rightarrow> Inr s
                      | Some sc \<Rightarrow>
                          (case fst (SftpClient_close (sftpEndThrows env sid) sc) of
                             Inl e \<Rightarrow> Inl e
                           | Inr u \<Rightarrow> Inr (s\<lparr>sftpClients := (sftpClients s)(sid := None)\<rparr>))) of
                  Inl e \<Rightarrow> (Rejected e, s)
                | Inr s1 \<Rightarrow>
                    (case (case clients s1 sid of
                             None \<Rightarrow> Resolved s1
                           | Some c \<Rightarrow>
                               (case fst (SshClient_close (clientEnd env sid) c) of
                                  Resolved u \<Rightarrow> Resolved (s1\<lparr>clients := (clients s1)(sid := None)\<rparr>)
                                | Rejected e \<Rightarrow> Rejected e
                                | Pending \<Rightarrow> Pending)) of
                       Rejected e \<Rightarrow> (Rejected e, s1)
                     | Pending \<Rightarrow> (Pending, s1)
                     | Resolved s2 \<Rightarrow>
                         let s3 = s2\<lparr>registry := snd (removeSession (registry s2) sid)\<rparr>;
                             s4 = (if Some sid = defaultSessionId s3
                                   then s3\<lparr>defaultSessionId := None\<rparr> else s3)
                         in (Resolved \<lparr>d_success = True,
                                d_message = ''Disconnected from '' @ username session @ ''@''
                                  @ host session @ '':'' @ show_int (port session)\<rparr>, s4)))))"

text \<open>
  \<open>disconnect\<close> has one \<open>await\<close>, at \<open>client.close()\<close>. Up to it the handler has closed
  and removed the transfer channel and has called \<open>Client.end()\<close>; when the \<open>close\<close> event
  has come it goes on, in the state the orchestrator has by then: it removes the
  transport client and the record and clears the default id. A transport that is not
  connected resolves \<open>close()\<close> at once, with no event to wait for.
\<close>

datatype disconnect_progress =
    DisconnectReturns "error + DisconnectResult"
  | AwaitsClose string SessionRecord

definition disconnect_finish ::
  "string \<Rightarrow> SessionRecord \<Rightarrow> SshToolHandlers \<Rightarrow> DisconnectResult \<times> SshToolHandlers" where
  "disconnect_finish sid session s2 =
     (let s3 = s2\<lparr>registry := snd (removeSession (registry s2) sid)\<rparr>;
          s4 = (if Some sid = defaultSessionId s3
                then s3\<lparr>defaultSessionId := None\<rparr> else s3)
      in (\<lparr>d_success = True,
           d_message = ''Disconnected from '' @ username session @ ''@''
             @ host session @ '':'' @ show_int (port session)\<rparr>, s4))"

definition disconnect_begin ::
  "CloseEnv \<Rightarrow> string option \<Rightarrow> SshToolHandlers \<Rightarrow> disconnect_progress \<times> SshToolHandlers" where
  "disconnect_begin env session_id_param s =
     (case getEffectiveSessionId s session_id_param of
        Inl e \<Rightarrow> (DisconnectReturns (Inl e), s)
      | Inr sid \<Rightarrow>
          (case getSession (registry s) sid of
             None \<Rightarrow> (DisconnectReturns (Inl (Error (''Session not found: '' @ sid))), s)
           | Some session \<Rightarrow>
               (case (case sftpClients s sid of
                        None \<Rightarrow> Inr s
                      | Some sc \<Rightarrow>
                          (case fst (SftpClient_close (sftpEndThrows env sid) sc) of
                             Inl e \<Rightarrow> Inl e
                           | Inr u \<Rightarrow> Inr (s\<lparr>sftpClients := (sftpClients s)(sid := None)\<rparr>))) of
                  Inl e \<Rightarrow> (DisconnectReturns (Inl e), s)
                | Inr s1 \<Rightarrow>
                    (case clients s1 sid of
                       None \<Rightarrow>
                         (DisconnectReturns (Inr (fst (disconnect_finish sid session s1))),
                          snd (disconnect_finish sid session s1))
                     | Some c \<Rightarrow>
                         if \<not> connected c then
                           (DisconnectReturns (Inr (fst (disconnect_finish sid session
                              (s1\<lparr>clients := (clients s1)(sid := None)\<rparr>)))),
                            snd (disconnect_finish sid session
                              (s1\<lparr>clients := (clients s1)(sid := None)\<rparr>)))
                         else
                           (case clientEnd env sid of
                              EndThrows m \<Rightarrow> (DisconnectReturns (Inl (Error m)), s1)
                            | _ \<Rightarrow> (AwaitsClose sid session, s1))))))"

definition disconnect_resume ::
  "string \<Rightarrow> SessionRecord \<Rightarrow> SshToolHandlers \<Rightarrow> DisconnectResult \<times> SshToolHandlers" where
  "disconnect_resume sid session s =
     disconnect_finish sid session (s\<lparr>clients := (clients s)(sid := None)\<rparr>)"

text \<open>
  One round of the loop of \<open>cleanup\<close>, for the session \<open>session\<close> of the snapshot that
  \<open>listSessions()\<close> returned. Both \<open>try\<close> blocks swallow what \<open>close\<close> throws: the
  transfer channel is dropped from its map whether its synchronous \<open>close\<close> throws or
  not, so the outcome of that call does not appear; an awaited \<open>close\<close> that never
  settles leaves the loop waiting.
\<close>

fun cleanupLoop ::
  "CloseEnv \<Rightarrow> SessionRecord list \<Rightarrow> SshToolHandlers \<Rightarrow> unit outcome \<times> SshToolHandlers" where
  "cleanupLoop env [] s = (Resolved (), s)"
| "cleanupLoop env (session # rest) s =
     (let sid = sessionId session;
          s1 = (case sftpClients s sid of
                  None \<Rightarrow> s
                | Some sc \<Rightarrow> s\<lparr>sftpClients := (sftpClients s)(sid := None)\<rparr>)
      in case clients s1 sid of
           None \<Rightarrow> cleanupLoop env rest (s1\<lparr>registry := snd (removeSession (registry s1) sid)\<rparr>)
         | Some c \<Rightarrow>
             (case fst (SshClient_close (clientEnd env sid) c) of
                Pending \<Rightarrow> (Pending, s1)
              | _ \<Rightarrow>
                  let s2 = s1\<lparr>clients := (clients s1)(sid := None)\<rparr>
                  in cleanupLoop env rest (s2\<lparr>registry := snd (removeSession (registry s2) sid)\<rparr>)))"

definition cleanup :: "CloseEnv \<Rightarrow> SshToolHandlers \<Rightarrow> unit outcome \<times> SshToolHandlers" where
  "cleanup env s =
     (case cleanupLoop env (listSessions (registry s)) s of
        (Resolved u, s1) \<Rightarrow> (Resolved (), s1\<lparr>defaultSessionId := None\<rparr>)
      | (r, s1) \<Rightarrow> (r, s1))"

subsection \<open>The file handlers\<close>

text \<open>
  Every \<open>sftp*\<close> handler starts the same way: it resolves the session id, gets or
  creates the transfer channel and touches the session; then it delegates to the
  channel, which does not change the orchestrator. \<open>useSftp\<close> is that common start.
\<close>

definition useSftp ::
  "int \<Rightarrow> sftp_init \<Rightarrow> string option \<Rightarrow> SshToolHandlers \<Rightarrow> SftpClient outcome \<times> SshToolHandlers" where
  "useSftp now i session_id_param s =
     (case getEffectiveSessionId s session_id_param of
        Inl e \<Rightarrow> (Rejected e, s)
      | Inr sid \<Rightarrow>
          (case getSftpClient i sid s of
             (Resolved sc, s1) \<Rightarrow> (Resolved sc, s1\<lparr>registry := touchSession now (registry s1) sid\<rparr>)
           | (r, s1) \<Rightarrow> (r, s1)))"

subsection \<open>Runs of the orchestrator\<close>

text \<open>
  A request to the orchestrator, with what the world answers while it is served.
  \<open>serve\<close> serves a request with nothing in between: the events its handler awaits
  come before any other request is taken up and before any other handler goes on (or
  they never come, and the handler waits for ever). \<open>run\<close> is a sequence of requests
  that do not overlap.
\<close>

datatype request =
    Connect ConnectEnv ConnectParams
  | AutoConnect ConnectEnv
  | Exec int "chan_event list" ExecParams
  | Disconnect CloseEnv "string option"
  | Sftp int sftp_init "string option"
  | Cleanup CloseEnv

fun serve :: "request \<Rightarrow> SshToolHandlers \<Rightarrow> SshToolHandlers" where
  "serve (Connect env p) s = fst (snd (connect env p s))"
| "serve (AutoConnect env) s = fst (snd (autoConnect env s))"
| "serve (Exec now events p) s = snd (exec now events p s)"
| "serve (Disconnect env sid) s = snd (disconnect env sid s)"
| "serve (Sftp now i sid) s = snd (useSftp now i sid s)"
| "serve (Cleanup env) s = snd (cleanup env s)"

definition run :: "request list \<Rightarrow> SshToolHandlers \<Rightarrow> SshToolHandlers" where
  "run rs s = foldl (\<lambda>st r. serve r st) s rs"

subsection \<open>Overlapping requests\<close>

text \<open>
  The handlers are asynchronous functions on one thread: a handler runs without
  interruption from one external event to its next wait for one, and other handlers
  run while it waits. The orchestrator with the handlers that wait: a file handler
  inside \<open>getSftpClient\<close>, waiting for \<open>init()\<close>, with the session id and the channel
  object it holds; \<open>disconnect\<close>, waiting for \<open>close()\<close>, with the session id and the
  record it holds.
\<close>

datatype task =
    SftpInit string SftpClient
  | ClientClose string SessionRecord

text \<open>
  What happens next: a request is served whole; a file handler is called and runs up
  to its wait; \<open>init()\<close> settles for the waiting handler of that index, which goes on
  (it stores the channel and touches the session); \<open>disconnect\<close> is called and runs up
  to its wait; the \<open>close\<close> event comes for the waiting \<open>disconnect\<close> of that index,
  which goes on. The integers are the clock at the time. Only the file handlers and
  \<open>disconnect\<close> are split at their \<open>await\<close>; every other request appears whole.
\<close>

datatype move =
    Whole request
  | SftpCall int "string option"
  | InitSettles nat int sftp_init
  | DisconnectCall CloseEnv "string option"
  | CloseEmitted nat

definition without :: "nat \<Rightarrow> 'a list \<Rightarrow> 'a list" where
  "without n ts = take n ts @ drop (Suc n) ts"

fun advance :: "move \<Rightarrow> SshToolHandlers \<times> task list \<Rightarrow> SshToolHandlers \<times> task list" where
  "advance (Whole r) (s, ts) = (serve r s, ts)"
| "advance (SftpCall now session_id_param) (s, ts) =
     (case getEffectiveSessionId s session_id_param of
        Inl e \<Rightarrow> (s, ts)
      | Inr sid \<Rightarrow>
          (case getSftpClient_begin sid s of
             Cached sc \<Rightarrow> (s\<lparr>registry := touchSession now (registry s) sid\<rparr>, ts)
           | Missing e \<Rightarrow> (s, ts)
           | Initialising sc0 \<Rightarrow> (s, ts @ [SftpInit sid sc0])))"
| "advance (InitSettles n now i) (s, ts) =
     (if n < length ts then
        (case ts ! n of
           SftpInit sid sc0 \<Rightarrow>
             (case getSftpClient_resume i sid sc0 s of
                (Resolved sc, s1) \<Rightarrow>
                  (s1\<lparr>registry := touchSession now (registry s1) sid\<rparr>, without n ts)
              | (Rejected e, s1) \<Rightarrow> (s1, without n ts)
              | (Pending, s1) \<Rightarrow> (s1, ts))
         | ClientClose sid session \<Rightarrow> (s, ts))
      else (s, ts))"
| "advance (DisconnectCall env session_id_param) (s, ts) =
     (case disconnect_begin env session_id_param s of
        (DisconnectReturns r, s1) \<Rightarrow> (s1, ts)
      | (AwaitsClose sid session, s1) \<Rightarrow> (s1, ts @ [ClientClose sid session]))"
| "advance (CloseEmitted n) (s, ts) =
     (if n < length ts then
        (case ts ! n of
           ClientClose sid session \<Rightarrow> (snd (disconnect_resume sid session s), without n ts)
         | SftpInit sid sc0 \<Rightarrow> (s, ts))
      else (s, ts))"


subsection \<open>Invariants\<close>



subsection \<open>Executions that end with the channel closing\<close>

text \<open>The events of a channel that runs undisturbed: output and the exit status.\<close>

fun isOutput :: "chan_event \<Rightarrow> bool" where
  "isOutput (Data chunk) = True"
| "isOutput (StderrData chunk) = True"
| "isOutput (Exit code) = True"
| "isOutput e = False"

subsection \<open>Notions of the claims about connect\<close>

text \<open>Clamping a value to a range, as the specification words it.\<close>

definition clampTo :: "int \<Rightarrow> int \<Rightarrow> int \<Rightarrow> int" where
  "clampTo lo hi x = max lo (min hi x)"

text \<open>The timeouts against which the handshakes of a wire log were raced.\<close>

fun racedTimeouts :: "wire_event list \<Rightarrow> int list" where
  "racedTimeouts [] = []"
| "racedTimeouts (ClientConnect cfg t # w) = t # racedTimeouts w"
| "racedTimeouts (ClientEnd # w) = racedTimeouts w"

text \<open>None of password, private-key content and private-key path is supplied (or it is empty).\<close>

definition noAuth :: "ConnectParams \<Rightarrow> bool" where
  "noAuth p \<longleftrightarrow> \<not> truthy (password p) \<and> \<not> truthy (private_key p) \<and> \<not> truthy (private_key_path p)"

section \<open>Transfer channel (services/sftp-client.ts)\<close>

subsection \<open>Directory listing\<close>















section \<open>Transfer channel: file content\<close>

subsection \<open>UTF-8\<close>

text \<open>
  \<open>Buffer.from(content, "utf-8")\<close> encodes the code units of a string: a high surrogate
  followed by a low surrogate is one code point of four bytes, any other surrogate is
  written as U+FFFD (the bytes EF BF BD). \<open>utf8Bytes\<close> gives the bytes as numbers
  below 256, \<open>Buffer_from\<close> as 8-bit words.
\<close>

definition isHighSurrogate :: "16 word \<Rightarrow> bool" where
  "isHighSurrogate c \<longleftrightarrow> 0xD800 \<le> unat c \<and> unat c \<le> 0xDBFF"

definition isLowSurrogate :: "16 word \<Rightarrow> bool" where
  "isLowSurrogate c \<longleftrightarrow> 0xDC00 \<le> unat c \<and> unat c \<le> 0xDFFF"

definition encodeCodePoint :: "nat \<Rightarrow> nat list" where
  "encodeCodePoint cp =
     (if cp < 0x80 then [cp]
      else if cp < 0x800 then [0xC0 + cp div 0x40, 0x80 + cp mod 0x40]
      else if cp < 0x10000 then
        [0xE0 + cp div 0x1000, 0x80 + cp div 0x40 mod 0x40, 0x80 + cp mod 0x40]
      else [0xF0 + cp div 0x40000, 0x80 + cp div 0x1000 mod 0x40,
            0x80 + cp div 0x40 mod 0x40, 0x80 + cp mod 0x40])"

fun utf8Bytes :: "jsstring \<Rightarrow> nat list" where
  "utf8Bytes [] = []"
| "utf8Bytes [c] =
     (if isHighSurrogate c \<or> isLowSurrogate c then [0xEF, 0xBF, 0xBD]
      else encodeCodePoint (unat c))"
| "utf8Bytes (c # d # cs) =
     (if isHighSurrogate c \<and> isLowSurrogate d then
        encodeCodePoint (0x10000 + (unat c - 0xD800) * 0x400 + (unat d - 0xDC00)) @ utf8Bytes cs
      else if isHighSurrogate c \<or> isLowSurrogate c then [0xEF, 0xBF, 0xBD] @ utf8Bytes (d # cs)
      else encodeCodePoint (unat c) @ utf8Bytes (d # cs))"

definition Buffer_from :: "jsstring \<Rightarrow> bytes" where
  "Buffer_from s = map of_nat (utf8Bytes s)"

text \<open>
  \<open>buffer.toString("utf-8")\<close> decodes as the UTF-8 decoder of the Encoding standard does:
  the state is the code point being assembled, the number of continuation bytes still
  needed and the bounds of the next continuation byte; an ill-formed sequence gives one
  U+FFFD and decoding resumes at the offending byte; a code point above U+FFFF becomes a
  surrogate pair. The byte order mark is kept.
\<close>

definition codeUnits :: "nat \<Rightarrow> jsstring" where
  "codeUnits cp =
     (if cp < 0x10000 then [of_nat cp]
      else [of_nat (0xD800 + (cp - 0x10000) div 0x400), of_nat (0xDC00 + (cp - 0x10000) mod 0x400)])"

fun decodeFrom :: "nat \<Rightarrow> nat \<Rightarrow> nat \<Rightarrow> nat \<Rightarrow> nat list \<Rightarrow> jsstring" where
  "decodeFrom cp need lo hi [] = (if need = 0 then [] else [0xFFFD])"
| "decodeFrom cp need lo hi (b # bs) =
     (if need \<noteq> 0 \<and> lo \<le> b \<and> b \<le> hi then
        (if need = 1 then codeUnits (cp * 0x40 + b mod 0x40) @ decodeFrom 0 0 0x80 0xBF bs
         else decodeFrom (cp * 0x40 + b mod 0x40) (need - 1) 0x80 0xBF bs)
      else (if need \<noteq> 0 then [0xFFFD] else []) @
        (if b < 0x80 then of_nat b # decodeFrom 0 0 0x80 0xBF bs
         else if 0xC2 \<le> b \<and> b \<le> 0xDF then decodeFrom (b mod 0x20) 1 0x80 0xBF bs
         else if 0xE0 \<le> b \<and> b \<le> 0xEF then
           decodeFrom (b mod 0x10) 2 (if b = 0xE0 then 0xA0 else 0x80) (if b = 0xED then 0x9F else 0xBF) bs
         else if 0xF0 \<le> b \<and> b \<le> 0xF4 then
           decodeFrom (b mod 0x08) 3 (if b = 0xF0 then 0x90 else 0x80) (if b = 0xF4 then 0x8F else 0xBF) bs
         else 0xFFFD # decodeFrom 0 0 0x80 0xBF bs))"

definition Buffer_toString :: "bytes \<Rightarrow> jsstring" where
  "Buffer_toString bs = decodeFrom 0 0 0x80 0xBF (map unat bs)"

text \<open>A well-formed string has no lone surrogate; a scalar value is a code point that is no surrogate.\<close>

fun wellFormed :: "jsstring \<Rightarrow> bool" where
  "wellFormed [] = True"
| "wellFormed [c] = (\<not> isHighSurrogate c \<and> \<not> isLowSurrogate c)"
| "wellFormed (c # d # cs) =
     (if isHighSurrogate c then isLowSurrogate d \<and> wellFormed cs
      else \<not> isLowSurrogate c \<and> wellFormed (d # cs))"

definition scalar :: "nat \<Rightarrow> bool" where
  "scalar cp \<longleftrightarrow> cp < 0xD800 \<or> (0xE000 \<le> cp \<and> cp < 0x110000)"

definition isAscii :: "jsstring \<Rightarrow> bool" where
  "isAscii s \<longleftrightarrow> (\<forall>c\<in>set s. unat c < 0x80)"

subsection \<open>Reading and writing files\<close>

text \<open>
  The remote file system maps a path to the bytes of the file there. \<open>stat\<close> answers
  with the attributes of the file, of which \<open>readFile\<close> reads the size only. The read
  stream of the transport library refuses a range that is negative or ends before it
  starts (it throws, which rejects the promise of \<open>readFile\<close>), and otherwise delivers
  the bytes from \<open>start\<close> to \<open>end\<close> inclusive, in chunks that \<open>Buffer.concat\<close> joins
  again. \<open>fault\<close> is the message of the \<open>error\<close> event of a stream, if it emits one; a
  write stream that fails is taken to fail before it has written anything.
\<close>

type_synonym remote_fs = "jsstring \<rightharpoonup> bytes"

record ReadFileResult =
  rf_path :: jsstring
  content :: jsstring
  rf_size :: nat
  rf_truncated :: bool

record WriteFileResult =
  wf_success :: bool
  wf_path :: jsstring
  wf_size :: nat
  wf_message :: jsstring

text \<open>An ASCII text as a JavaScript string.\<close>

definition js :: "string \<Rightarrow> jsstring" where
  "js s = map (\<lambda>c. of_nat (of_char c)) s"

definition SftpClient_stat :: "SftpClient \<Rightarrow> remote_fs \<Rightarrow> jsstring \<Rightarrow> error + nat" where
  "SftpClient_stat sc fs remotePath =
     (case ensureSftp sc of
        Inl e \<Rightarrow> Inl e
      | Inr w \<Rightarrow>
          (case fs remotePath of
             None \<Rightarrow> Inl (Error ''Failed to stat: No such file'')
           | Some b \<Rightarrow> Inr (length b)))"

definition createReadStream :: "remote_fs \<Rightarrow> jsstring \<Rightarrow> int \<Rightarrow> int \<Rightarrow> error + (string + bytes)" where
  "createReadStream fs remotePath start end =
     (if start < 0 \<or> end < 0 \<or> end < start then Inl RangeError
      else case fs remotePath of
             None \<Rightarrow> Inr (Inl ''No such file'')
           | Some b \<Rightarrow> Inr (Inr (take (nat (end - start + 1)) (drop (nat start) b))))"

definition readFile ::
  "SftpClient \<Rightarrow> string option \<Rightarrow> remote_fs \<Rightarrow> jsstring \<Rightarrow> int \<Rightarrow> error + ReadFileResult" where
  "readFile sc fault fs remotePath maxSize =
     (case ensureSftp sc of
        Inl e \<Rightarrow> Inl e
      | Inr w \<Rightarrow>
          (case SftpClient_stat sc fs remotePath of
             Inl e \<Rightarrow> Inl e
           | Inr fileSize \<Rightarrow>
               let truncated = (maxSize < int fileSize) in
               (case createReadStream fs remotePath 0 (min (int fileSize) maxSize - 1) of
                  Inl e \<Rightarrow> Inl e
                | Inr stream \<Rightarrow>
                    (case fault of
                       Some m \<Rightarrow> Inl (Error (''Failed to read file: '' @ m))
                     | None \<Rightarrow>
                         (case stream of
                            Inl m \<Rightarrow> Inl (Error (''Failed to read file: '' @ m))
                          | Inr chunks \<Rightarrow>
                              Inr \<lparr>rf_path = remotePath, content = Buffer_toString chunks,
                                   rf_size = fileSize, rf_truncated = truncated\<rparr>)))))"

definition writeFile ::
  "SftpClient \<Rightarrow> string option \<Rightarrow> remote_fs \<Rightarrow> jsstring \<Rightarrow> jsstring
     \<Rightarrow> (error + WriteFileResult) \<times> remote_fs" where
  "writeFile sc fault fs remotePath str =
     (case ensureSftp sc of
        Inl e \<Rightarrow> (Inl e, fs)
      | Inr w \<Rightarrow>
          let buffer = Buffer_from str in
          (case fault of
             Some m \<Rightarrow> (Inl (Error (''Failed to write file: '' @ m)), fs)
           | None \<Rightarrow>
               (Inr \<lparr>wf_success = True, wf_path = remotePath, wf_size = length buffer,
                     wf_message = js ''Written '' @ js (show_nat (length buffer)) @ js '' bytes to ''
                       @ remotePath\<rparr>,
                fs(remotePath \<mapsto> buffer))))"

section \<open>Sample data\<close>

text \<open>Concrete requests and answers of the world, for the instances below.\<close>

definition sampleConfig :: GlobalConfig where
  "sampleConfig = \<lparr>server = None, g_timeout = None, g_connectTimeout = None\<rparr>"

definition sampleParams :: ConnectParams where
  "sampleParams =
     \<lparr>p_host = ''example.org'', p_port = 22, p_username = ''root'',
      password = Some ''secret'', private_key = None, private_key_path = None,
      passphrase = None, timeout = None, connect_timeout = None\<rparr>"

definition sampleEnv :: "string \<Rightarrow> nat \<Rightarrow> ConnectEnv" where
  "sampleEnv u h =
     \<lparr>keyFile = Inl ''ENOENT'', handshake = Ready, newClient = h, uuid = u, clock = 100\<rparr>"




definition sampleRequests :: "request list" where
  "sampleRequests =
     [Connect (sampleEnv ''id-1'' 1) sampleParams,
      Connect (sampleEnv ''id-2'' 2) sampleParams,
      Sftp 150 (InitOk 7) (Some ''id-1'')]"



definition openChannel :: SftpClient where
  "openChannel = \<lparr>sftp_client = 1, sftp = Some 7\<rparr>"

section \<open>Properties of command validation\<close>

lemma trimStart_decomp: "s = takeWhile isWhiteSpace s @ trimStart s"
  by (simp add: trimStart_def)

lemma trimEnd_decomp: "s = trimEnd s @ rev (takeWhile isWhiteSpace (rev s))"
proof -
  have "s = rev (takeWhile isWhiteSpace (rev s) @ dropWhile isWhiteSpace (rev s))"
    by (simp only: takeWhile_dropWhile_id rev_rev_ident)
  also have "\<dots> = rev (dropWhile isWhiteSpace (rev s)) @ rev (takeWhile isWhiteSpace (rev s))"
    by (rule rev_append)
  finally show ?thesis unfolding trimEnd_def .
qed

lemma trim_decomp:
  "s = takeWhile isWhiteSpace s @ trim s @ rev (takeWhile isWhiteSpace (rev (trimStart s)))"
  using trimStart_decomp [of s] trimEnd_decomp [of "trimStart s"]
  by (simp add: trim_def)

lemma trim_empty_iff: "trim s = [] \<longleftrightarrow> (\<forall>c\<in>set s. isWhiteSpace c)"
proof
  assume "\<forall>c\<in>set s. isWhiteSpace c"
  then have "trimStart s = []" by (simp add: trimStart_def)
  then show "trim s = []" by (simp add: trim_def trimEnd_def)
next
  assume e: "trim s = []"
  then have "dropWhile isWhiteSpace (rev (dropWhile isWhiteSpace s)) = []"
    by (simp add: trim_def trimStart_def trimEnd_def)
  then have a: "\<forall>c\<in>set (dropWhile isWhiteSpace s). isWhiteSpace c"
    by simp
  have "dropWhile isWhiteSpace s = []"
  proof (cases "dropWhile isWhiteSpace s")
    case Nil then show ?thesis .
  next
    case (Cons x xs)
    then have "\<not> isWhiteSpace x" by (metis hd_dropWhile list.sel(1) list.distinct(1))
    moreover have "isWhiteSpace x" using a Cons by simp
    ultimately show ?thesis by simp
  qed
  then show "\<forall>c\<in>set s. isWhiteSpace c" by simp
qed

lemma trim_hd: "trim s \<noteq> [] \<Longrightarrow> \<not> isWhiteSpace (hd (trim s))"
proof -
  assume ne: "trim s \<noteq> []"
  have dne: "trimStart s \<noteq> []"
  proof
    assume "trimStart s = []"
    then have "trim s = []" by (simp add: trim_def trimEnd_def)
    then show False using ne by simp
  qed
  then have h: "\<not> isWhiteSpace (hd (trimStart s))"
    unfolding trimStart_def by (rule hd_dropWhile)
  have "trimStart s = trim s @ rev (takeWhile isWhiteSpace (rev (trimStart s)))"
    using trimEnd_decomp [of "trimStart s"] by (simp add: trim_def)
  then have "hd (trimStart s) = hd (trim s)" using ne by (metis hd_append2)
  with h show ?thesis by simp
qed

lemma trim_last: "trim s \<noteq> [] \<Longrightarrow> \<not> isWhiteSpace (last (trim s))"
proof -
  assume ne: "trim s \<noteq> []"
  let ?e = "dropWhile isWhiteSpace (rev (trimStart s))"
  have t: "trim s = rev ?e" by (simp add: trim_def trimEnd_def)
  then have "?e \<noteq> []" using ne by auto
  then have "\<not> isWhiteSpace (hd ?e)" by (rule hd_dropWhile)
  moreover have "last (trim s) = hd ?e" using t \<open>?e \<noteq> []\<close> by (simp add: last_rev)
  ultimately show ?thesis by simp
qed

lemma length_trim_le: "length (trim s) \<le> length s"
proof -
  have "length s = length (takeWhile isWhiteSpace s @ trim s @ rev (takeWhile isWhiteSpace (rev (trimStart s))))"
    using trim_decomp [of s] by simp
  then show ?thesis by simp
qed

section \<open>Properties of the session registry\<close>

lemma map_of_delete_same: "map_of (AList.delete k al) k = None"
  by (simp add: delete_conv)






section \<open>Invariants of the orchestrator\<close>








lemma getSftpClient_unfold:
  "getSftpClient i sid s =
     (case sftpClients s sid of
        Some sc \<Rightarrow> (Resolved sc, s)
      | None \<Rightarrow>
          (case clients s sid of
             None \<Rightarrow> (Rejected (Error (''Client not found for session: '' @ sid)), s)
           | Some sshClient \<Rightarrow>
               (case SftpClient_init i \<lparr>sftp_client = handle sshClient, sftp = None\<rparr> of
                  (Resolved u, sc) \<Rightarrow> (Resolved sc, s\<lparr>sftpClients := (sftpClients s)(sid \<mapsto> sc)\<rparr>)
                | (Rejected e, sc) \<Rightarrow> (Rejected e, s)
                | (Pending, sc) \<Rightarrow> (Pending, s))))"
  by (simp add: getSftpClient_def getSftpClient_begin_def getSftpClient_resume_def
        split: option.splits)



















text \<open>
  Serving a request whole is one of the schedules of the overlapping handlers: the one
  in which the awaited event comes before anything else happens.
\<close>

lemma sftp_call_then_settle:
  "fst (advance (InitSettles (length ts) now i) (advance (SftpCall now sidp) (s, ts)))
     = serve (Sftp now i sidp) s"
  by (auto simp: useSftp_def getSftpClient_def
        split: sum.splits sftp_lookup.splits outcome.splits prod.splits)

lemma disconnect_call_then_close:
  "\<forall>sid. clientEnd env sid \<noteq> EndNeverCloses \<Longrightarrow>
   fst (advance (CloseEmitted (length ts)) (advance (DisconnectCall env sidp) (s, ts)))
     = serve (Disconnect env sidp) s"
  by (auto simp: disconnect_def disconnect_begin_def disconnect_resume_def disconnect_finish_def
        SshClient_close_def Let_def
        split: sum.splits option.splits outcome.splits prod.splits end_behaviour.splits
          disconnect_progress.splits if_splits)


lemmas sample_defs =
  run_def sampleRequests_def newHandlers_def sampleConfig_def sampleEnv_def sampleParams_def
  connect_def clientConfigOf_def ConnectParamsSchema_parse_def ConnectParamsSchema_issues_def outside_def
  SshClient_connect_def createSession_def useSftp_def getEffectiveSessionId_def
  getSftpClient_unfold SftpClient_init_def touchSession_def Let_def

section \<open>Claims about command validation\<close>

text \<open>
  C5, as the code has it. \<open>sanitizeCommand\<close> trims first and measures afterwards:
  it rejects the empty and the whitespace-only string; it rejects when the command
  \<^emph>\<open>after trimming\<close> is longer than 1 000 characters; otherwise it returns the trimmed
  command, which is the input without its leading and trailing whitespace (the input
  is \<open>l @ trim s @ r\<close> with \<open>l\<close> and \<open>r\<close> whitespace only, and the trimmed command
  neither starts nor ends with whitespace). In particular every input of at most 1 000
  characters that is not whitespace-only is accepted.
\<close>

theorem sanitizeCommand_trimmed:
  "((\<forall>c\<in>set s. isWhiteSpace c) \<longrightarrow> sanitizeCommand s = Inl (Error ''command cannot be empty''))
   \<and> (\<not> (\<forall>c\<in>set s. isWhiteSpace c) \<and> length (trim s) > 1000 \<longrightarrow>
        (\<exists>e. sanitizeCommand s = Inl e))
   \<and> (\<not> (\<forall>c\<in>set s. isWhiteSpace c) \<and> length (trim s) \<le> 1000 \<longrightarrow>
        sanitizeCommand s = Inr (trim s))
   \<and> (\<not> (\<forall>c\<in>set s. isWhiteSpace c) \<and> length s \<le> 1000 \<longrightarrow> sanitizeCommand s = Inr (trim s))
   \<and> (\<exists>l r. s = l @ trim s @ r \<and> (\<forall>c\<in>set l. isWhiteSpace c) \<and> (\<forall>c\<in>set r. isWhiteSpace c))
   \<and> (trim s \<noteq> [] \<longrightarrow> \<not> isWhiteSpace (hd (trim s)) \<and> \<not> isWhiteSpace (last (trim s)))"
proof -
  have d: "\<exists>l r. s = l @ trim s @ r \<and> (\<forall>c\<in>set l. isWhiteSpace c) \<and> (\<forall>c\<in>set r. isWhiteSpace c)"
  proof (intro exI conjI)
    show "s = takeWhile isWhiteSpace s @ trim s @ rev (takeWhile isWhiteSpace (rev (trimStart s)))"
      by (rule trim_decomp)
    show "\<forall>c\<in>set (takeWhile isWhiteSpace s). isWhiteSpace c"
      by (auto dest: set_takeWhileD)
    show "\<forall>c\<in>set (rev (takeWhile isWhiteSpace (rev (trimStart s)))). isWhiteSpace c"
      by (auto dest: set_takeWhileD)
  qed
  have l: "length s \<le> 1000 \<Longrightarrow> length (trim s) \<le> 1000"
    using length_trim_le [of s] by simp
  show ?thesis
    using d l trim_hd [of s] trim_last [of s] trim_empty_iff [of s]
    by (auto simp: sanitizeCommand_def COMMAND_MAX_CHARS_def Let_def)
qed

theorem sanitizeCommand_trimmed_witness:
  "sanitizeCommand [] = Inl (Error ''command cannot be empty'')
   \<and> sanitizeCommand [0x20, 0x09, 0x20] = Inl (Error ''command cannot be empty'')
   \<and> (\<exists>e. sanitizeCommand (replicate 1001 0x78) = Inl e)
   \<and> sanitizeCommand [0x20, 0x20, 0x6C, 0x73, 0x20, 0x2F, 0x20] = Inr [0x6C, 0x73, 0x20, 0x2F]"
  using sanitizeCommand_trimmed [of "[]"] sanitizeCommand_trimmed [of "[0x20, 0x09, 0x20]"]
    sanitizeCommand_trimmed [of "replicate 1001 0x78"]
    sanitizeCommand_trimmed [of "[0x20, 0x20, 0x6C, 0x73, 0x20, 0x2F, 0x20]"]
  by (simp add: trim_def trimStart_def trimEnd_def isWhiteSpace_def)

text \<open>
  C5 as stated fails: the command \<open>a\<close> followed by 1 000 spaces is 1 001 characters
  long, longer than 1 000, and it is not rejected: its trimmed form \<open>a\<close> is returned.
\<close>

theorem sanitizeCommand_padded_counterexample:
  "length (0x61 # replicate 1000 0x20 :: jsstring) > 1000
   \<and> sanitizeCommand (0x61 # replicate 1000 0x20) = Inr [0x61]"
  by (simp add: sanitizeCommand_def trim_def trimStart_def trimEnd_def isWhiteSpace_def
        COMMAND_MAX_CHARS_def dropWhile_append)

section \<open>Claims about the session registry\<close>

text \<open>
  C8. Registry removal is idempotent and never fails: after \<open>removeSession\<close> of an id,
  \<open>getSession\<close> of that id is absent; a second \<open>removeSession\<close> of the same id returns
  absent and leaves the registry as it is; and \<open>removeSession\<close> of an id that is not
  registered returns absent and changes nothing. The function is total: it has no
  error result at all.
\<close>

theorem removeSession_idempotent:
  "getSession (snd (removeSession reg sid)) sid = None
   \<and> removeSession (snd (removeSession reg sid)) sid = (None, snd (removeSession reg sid))
   \<and> (getSession reg sid = None \<longrightarrow> removeSession reg sid = (None, reg))"
  by (simp add: removeSession_def getSession_def map_of_delete_same split: option.split)

theorem removeSession_idempotent_witness:
  "getSession (snd (removeSession (registry (run sampleRequests (newHandlers sampleConfig))) ''id-1'')) ''id-1'' = None
   \<and> fst (removeSession (registry (run sampleRequests (newHandlers sampleConfig))) ''id-1'') \<noteq> None
   \<and> fst (removeSession (snd (removeSession (registry (run sampleRequests (newHandlers sampleConfig))) ''id-1'')) ''id-1'') = None
   \<and> getSession [] ''id-1'' = None
   \<and> removeSession [] ''id-1'' = (None, [])"
  using removeSession_idempotent [of "registry (run sampleRequests (newHandlers sampleConfig))" "''id-1''"]
    removeSession_idempotent [of "[]" "''id-1''"]
  by (simp add: getSession_def removeSession_def sample_defs)

section \<open>Claims about the orchestrator\<close>






text \<open>
  C10. When \<open>sanitizeCommand\<close> rejects the command of an \<open>exec\<close> request, \<open>exec\<close> fails
  and leaves the whole state of the orchestrator as it was, so the record of every
  session, with its \<open>lastUsedAt\<close>, is what it was. The session is touched only once the
  command has been sanitized: for a request that passes the schema, names a session
  with a transport client and carries a command that \<open>sanitizeCommand\<close> accepts, the
  record of the session afterwards is the old one with \<open>lastUsedAt\<close> set to the
  current time.
\<close>

theorem exec_rejected_untouched:
  "(sanitizeCommand (command p) = Inl e \<longrightarrow>
      snd (exec now events p s) = s
      \<and> (\<exists>e'. fst (exec now events p s) = Rejected e')
      \<and> getSession (registry (snd (exec now events p s))) sid = getSession (registry s) sid)
   \<and> (ExecParamsSchema_parse p = Inr p \<and> getEffectiveSessionId s (session_id p) = Inr sid
        \<and> getSession (registry s) sid = Some r \<and> clients s sid = Some c
        \<and> sanitizeCommand (command p) = Inr cmd \<longrightarrow>
      getSession (registry (snd (exec now events p s))) sid = Some (r\<lparr>lastUsedAt := Some now\<rparr>))"
proof -
  have 1: "sanitizeCommand (command p) = Inl e \<Longrightarrow>
      snd (exec now events p s) = s \<and> (\<exists>e'. fst (exec now events p s) = Rejected e')"
    by (auto simp: exec_def ExecParamsSchema_parse_def split: sum.splits option.splits if_splits)
  have 2: "ExecParamsSchema_parse p = Inr p \<and> getEffectiveSessionId s (session_id p) = Inr sid
        \<and> getSession (registry s) sid = Some r \<and> clients s sid = Some c
        \<and> sanitizeCommand (command p) = Inr cmd \<Longrightarrow>
      getSession (registry (snd (exec now events p s))) sid = Some (r\<lparr>lastUsedAt := Some now\<rparr>)"
    by (auto simp: exec_def getSession_def touchSession_def update_conv')
  show ?thesis using 1 2 by auto
qed

theorem exec_rejected_untouched_witness:
  "sanitizeCommand [0x20, 0x20] = Inl (Error ''command cannot be empty'')
   \<and> snd (exec 200 [Close] \<lparr>session_id = Some ''id-1'', command = [0x20, 0x20], exec_timeout = None\<rparr>
        (run sampleRequests (newHandlers sampleConfig))) = run sampleRequests (newHandlers sampleConfig)
   \<and> map_option lastUsedAt (getSession (registry (run sampleRequests (newHandlers sampleConfig))) ''id-1'')
       = Some (Some 150)
   \<and> map_option lastUsedAt (getSession (registry (snd (exec 200 [Close]
         \<lparr>session_id = Some ''id-1'', command = [0x6C, 0x73], exec_timeout = None\<rparr>
         (run sampleRequests (newHandlers sampleConfig))))) ''id-1'') = Some (Some 200)"
proof -
  let ?s = "run sampleRequests (newHandlers sampleConfig)"
  let ?bad = "\<lparr>session_id = Some ''id-1'', command = [0x20, 0x20], exec_timeout = None\<rparr>"
  let ?good = "\<lparr>session_id = Some ''id-1'', command = [0x6C, 0x73], exec_timeout = None\<rparr>"
  have b: "sanitizeCommand [0x20, 0x20] = Inl (Error ''command cannot be empty'')"
    by (simp add: sanitizeCommand_def trim_def trimStart_def trimEnd_def isWhiteSpace_def)
  have g: "sanitizeCommand [0x6C, 0x73] = Inr [0x6C, 0x73]"
    by (simp add: sanitizeCommand_def trim_def trimStart_def trimEnd_def isWhiteSpace_def
          COMMAND_MAX_CHARS_def)
  have r: "getSession (registry ?s) ''id-1'' =
      Some \<lparr>sessionId = ''id-1'', host = ''example.org'', port = 22, username = ''root'',
            client = 1, createdAt = 100, lastUsedAt = Some 150\<rparr>"
    by (simp add: sample_defs getSession_def)
  have c: "clients ?s ''id-1'' = Some \<lparr>config = \<lparr>c_host = ''example.org'', c_port = 22,
      c_username = ''root'', c_password = Some ''secret'', privateKey = None,
      privateKeyPath = None, c_passphrase = None, c_timeout = None, connectTimeout = None\<rparr>,
      connected = True, handle = 1\<rparr>"
    by (simp add: sample_defs)
  have 1: "snd (exec 200 [Close] ?bad ?s) = ?s"
    using exec_rejected_untouched [of ?bad "Error ''command cannot be empty''" 200 "[Close]" ?s] b
    by simp
  have 2: "getSession (registry (snd (exec 200 [Close] ?good ?s))) ''id-1'' =
      Some \<lparr>sessionId = ''id-1'', host = ''example.org'', port = 22, username = ''root'',
            client = 1, createdAt = 100, lastUsedAt = Some 200\<rparr>"
    using exec_rejected_untouched [of ?good _ 200 "[Close]" ?s "''id-1''" _ _ "[0x6C, 0x73]"] g r c
    by (simp add: ExecParamsSchema_parse_def ExecParamsSchema_issues_def outside_def
          getEffectiveSessionId_def)
  show ?thesis using b 1 2 r by simp
qed

section \<open>Properties of command execution\<close>

lemma settle_settled: "settled st \<noteq> Pending \<Longrightarrow> settled (settle r st) = settled st"
  by (cases "settled st") (simp_all add: settle_def)

lemma settle_pending: "settled st = Pending \<Longrightarrow> settled (settle r st) = r"
  by (simp add: settle_def)

lemma settle_acc: "acc (settle r st) = acc st"
  by (cases "settled st") (simp_all add: settle_def)

lemma onEvent_settled: "settled st \<noteq> Pending \<Longrightarrow> settled (onEvent t e st) = settled st"
  by (cases e) (simp_all add: settle_settled split: prod.splits)

lemma runEvents_settled: "settled st \<noteq> Pending \<Longrightarrow> settled (runEvents t es st) = settled st"
proof (induction es arbitrary: st)
  case Nil
  then show ?case by simp
next
  case (Cons e es)
  have "settled (onEvent t e st) = settled st" using Cons.prems by (rule onEvent_settled)
  with Cons show ?case by (cases e) simp_all
qed

lemma capture_spec:
  "capture (take CHARACTER_LIMIT R) chunk = (out, over) \<Longrightarrow>
   out = take CHARACTER_LIMIT (R @ chunk)
   \<and> ((over \<or> length R > CHARACTER_LIMIT) = (length (R @ chunk) > CHARACTER_LIMIT))"
proof -
  assume c: "capture (take CHARACTER_LIMIT R) chunk = (out, over)"
  have n: "nat (int CHARACTER_LIMIT - int (length R)) = CHARACTER_LIMIT - length R" by simp
  show ?thesis
  proof (cases "length R \<le> CHARACTER_LIMIT")
    case True
    then show ?thesis using c n
      by (auto simp: capture_def slice0_def split: if_splits)
  next
    case False
    then show ?thesis using c
      by (auto simp: capture_def slice0_def min_def split: if_splits)
  qed
qed

lemma runEvents_resolved:
  "settled st = Pending \<Longrightarrow> \<not> timedOut st \<Longrightarrow>
   stdout (acc st) = take CHARACTER_LIMIT Ro \<Longrightarrow>
   stderr (acc st) = take CHARACTER_LIMIT Re \<Longrightarrow>
   truncated (acc st) = (length Ro > CHARACTER_LIMIT \<or> length Re > CHARACTER_LIMIT) \<Longrightarrow>
   settled (runEvents t es st) = Resolved r \<Longrightarrow>
   stdout r = take CHARACTER_LIMIT (Ro @ rawStdout es)
   \<and> stderr r = take CHARACTER_LIMIT (Re @ rawStderr es)
   \<and> truncated r = (length (Ro @ rawStdout es) > CHARACTER_LIMIT
                     \<or> length (Re @ rawStderr es) > CHARACTER_LIMIT)"
proof (induction es arbitrary: st Ro Re)
  case Nil
  then show ?case by simp
next
  case (Cons e es)
  show ?case
  proof (cases e)
    case (ExecError m)
    with Cons.prems show ?thesis by (simp add: settle_pending)
  next
    case (Data chunk)
    let ?st = "onEvent t (Data chunk) st"
    obtain out over where c: "capture (take CHARACTER_LIMIT Ro) chunk = (out, over)"
      by (cases "capture (take CHARACTER_LIMIT Ro) chunk") auto
    note cs = capture_spec [OF c]
    have 1: "settled ?st = Pending" "\<not> timedOut ?st"
      using Cons.prems c by simp_all
    have 2: "stdout (acc ?st) = take CHARACTER_LIMIT (Ro @ chunk)"
      using Cons.prems c cs by simp
    have 3: "stderr (acc ?st) = take CHARACTER_LIMIT Re"
      using Cons.prems c by simp
    have 4: "truncated (acc ?st) = (length (Ro @ chunk) > CHARACTER_LIMIT \<or> length Re > CHARACTER_LIMIT)"
      using Cons.prems c cs by auto
    have 5: "settled (runEvents t es ?st) = Resolved r" using Cons.prems Data by simp
    from Cons.IH [OF 1 2 3 4 5] Data show ?thesis by simp
  next
    case (StderrData chunk)
    let ?st = "onEvent t (StderrData chunk) st"
    obtain out over where c: "capture (take CHARACTER_LIMIT Re) chunk = (out, over)"
      by (cases "capture (take CHARACTER_LIMIT Re) chunk") auto
    note cs = capture_spec [OF c]
    have 1: "settled ?st = Pending" "\<not> timedOut ?st"
      using Cons.prems c by simp_all
    have 2: "stdout (acc ?st) = take CHARACTER_LIMIT Ro"
      using Cons.prems c by simp
    have 3: "stderr (acc ?st) = take CHARACTER_LIMIT (Re @ chunk)"
      using Cons.prems c cs by simp
    have 4: "truncated (acc ?st) = (length Ro > CHARACTER_LIMIT \<or> length (Re @ chunk) > CHARACTER_LIMIT)"
      using Cons.prems c cs by auto
    have 5: "settled (runEvents t es ?st) = Resolved r" using Cons.prems StderrData by simp
    from Cons.IH [OF 1 2 3 4 5] StderrData show ?thesis by simp
  next
    case (Exit code)
    let ?st = "onEvent t (Exit code) st"
    have 1: "settled ?st = Pending" "\<not> timedOut ?st" using Cons.prems by simp_all
    have 2: "stdout (acc ?st) = take CHARACTER_LIMIT Ro" using Cons.prems by simp
    have 3: "stderr (acc ?st) = take CHARACTER_LIMIT Re" using Cons.prems by simp
    have 4: "truncated (acc ?st) = (length Ro > CHARACTER_LIMIT \<or> length Re > CHARACTER_LIMIT)"
      using Cons.prems by simp
    have 5: "settled (runEvents t es ?st) = Resolved r" using Cons.prems Exit by simp
    from Cons.IH [OF 1 2 3 4 5] Exit show ?thesis by simp
  next
    case Close
    let ?st = "onEvent t Close st"
    have "settled ?st = Resolved (acc st)" using Cons.prems by (simp add: settle_pending)
    then have "settled (runEvents t es ?st) = Resolved (acc st)"
      using runEvents_settled [of ?st t es] by simp
    then have "r = acc st" using Cons.prems Close by simp
    then show ?thesis using Cons.prems Close by simp
  next
    case (ChanError m)
    let ?st = "onEvent t (ChanError m) st"
    have "settled ?st = Rejected (Error (''Channel error: '' @ m))"
      using Cons.prems by (simp add: settle_pending)
    then have "settled (runEvents t es ?st) = Rejected (Error (''Channel error: '' @ m))"
      using runEvents_settled [of ?st t es] by simp
    then show ?thesis using Cons.prems ChanError by simp
  next
    case TimerFires
    show ?thesis
    proof (cases "timerCleared st")
      case True
      then have "onEvent t TimerFires st = st" by simp
      then have 5: "settled (runEvents t es st) = Resolved r" using Cons.prems TimerFires by simp
      from Cons.IH [OF Cons.prems(1-5) 5] TimerFires show ?thesis by simp
    next
      case False
      let ?st = "onEvent t TimerFires st"
      have "\<exists>e. settled ?st = Rejected e" using Cons.prems False by (simp add: settle_pending)
      then obtain e where "settled ?st = Rejected e" ..
      then have "settled (runEvents t es ?st) = Rejected e"
        using runEvents_settled [of ?st t es] by simp
      then show ?thesis using Cons.prems TimerFires by simp
    qed
  qed
qed

lemma runEvents_outputs:
  "list_all isOutput pre \<Longrightarrow> settled st = Pending \<Longrightarrow> \<not> timedOut st \<Longrightarrow>
   \<exists>r. settled (runEvents t (pre @ Close # post) st) = Resolved r"
proof (induction pre arbitrary: st)
  case Nil
  have "settled (onEvent t Close st) = Resolved (acc st)" using Nil by (simp add: settle_pending)
  then show ?case using runEvents_settled [of "onEvent t Close st" t post] by simp
next
  case (Cons e pre)
  have "settled (onEvent t e st) = Pending \<and> \<not> timedOut (onEvent t e st)"
    using Cons.prems by (cases e) (simp_all split: prod.splits)
  with Cons show ?case by (cases e) simp_all
qed

section \<open>Claims about command execution\<close>

text \<open>
  C1. Chunks are the strings that the \<open>data\<close> callbacks receive. Whenever \<open>execCommand\<close>
  returns a result: if the raw output on stdout is longer than 25 000 characters, the
  \<open>truncated\<close> flag of the result is true and its \<open>stdout\<close> is exactly 25 000
  characters long, and the same for stderr with the same single flag; neither string
  is ever longer than 25 000 characters; each is the first 25 000 characters of the
  raw output of its stream, and the flag is set exactly when one of the two streams
  overflowed. And \<open>execCommand\<close> does return a result on a connected client whenever
  the channel delivers output and exit status only and then closes.
\<close>

theorem execCommand_truncates:
  "(execCommand events c cmd = Resolved r \<longrightarrow>
      (length (rawStdout events) > 25000 \<longrightarrow> truncated r \<and> length (stdout r) = 25000)
      \<and> (length (rawStderr events) > 25000 \<longrightarrow> truncated r \<and> length (stderr r) = 25000)
      \<and> length (stdout r) \<le> 25000 \<and> length (stderr r) \<le> 25000
      \<and> stdout r = take 25000 (rawStdout events) \<and> stderr r = take 25000 (rawStderr events)
      \<and> truncated r = (length (rawStdout events) > 25000 \<or> length (rawStderr events) > 25000))
   \<and> (connected c \<and> list_all isOutput pre \<longrightarrow>
        (\<exists>r'. execCommand (pre @ Close # post) c cmd = Resolved r'))"
proof -
  have 1: "execCommand events c cmd = Resolved r \<Longrightarrow>
      stdout r = take 25000 (rawStdout events) \<and> stderr r = take 25000 (rawStderr events)
      \<and> truncated r = (length (rawStdout events) > 25000 \<or> length (rawStderr events) > 25000)"
  proof -
    assume a: "execCommand events c cmd = Resolved r"
    then have conn: "connected c" by (auto simp: execCommand_def split: if_splits)
    define t where "t = (case c_timeout (config c) of None \<Rightarrow> DEFAULT_EXEC_TIMEOUT | Some t \<Rightarrow> t)"
    have s: "settled (runEvents t events initialExecState) = Resolved r"
      using a conn by (simp add: execCommand_def t_def)
    have "stdout r = take CHARACTER_LIMIT ([] @ rawStdout events)
      \<and> stderr r = take CHARACTER_LIMIT ([] @ rawStderr events)
      \<and> truncated r = (length ([] @ rawStdout events) > CHARACTER_LIMIT
                     \<or> length ([] @ rawStderr events) > CHARACTER_LIMIT)"
      by (rule runEvents_resolved [OF _ _ _ _ _ s]) (simp_all add: initialExecState_def)
    then show ?thesis by (simp add: CHARACTER_LIMIT_def)
  qed
  have 2: "connected c \<and> list_all isOutput pre \<Longrightarrow>
        \<exists>r'. execCommand (pre @ Close # post) c cmd = Resolved r'"
    using runEvents_outputs [of pre initialExecState _ post]
    by (simp add: execCommand_def initialExecState_def)
  show ?thesis using 1 2 by auto
qed

theorem execCommand_truncates_witness:
  "\<exists>r. execCommand [Data (replicate 20000 0x61), StderrData [0x62], Data (replicate 5001 0x61), Exit (Some 0), Close]
         \<lparr>config = \<lparr>c_host = ''example.org'', c_port = 22, c_username = ''root'',
             c_password = Some ''secret'', privateKey = None, privateKeyPath = None,
             c_passphrase = None, c_timeout = None, connectTimeout = None\<rparr>,
           connected = True, handle = 1\<rparr> [0x6C, 0x73] = Resolved r
       \<and> truncated r \<and> length (stdout r) = 25000 \<and> stderr r = [0x62]"
proof -
  let ?c = "\<lparr>config = \<lparr>c_host = ''example.org'', c_port = 22, c_username = ''root'',
             c_password = Some ''secret'', privateKey = None, privateKeyPath = None,
             c_passphrase = None, c_timeout = None, connectTimeout = None\<rparr>,
           connected = True, handle = 1\<rparr>"
  let ?pre = "[Data (replicate 20000 0x61), StderrData [0x62], Data (replicate 5001 0x61), Exit (Some 0)]"
  have "\<exists>r'. execCommand (?pre @ Close # []) ?c [0x6C, 0x73] = Resolved r'"
    using execCommand_truncates [of _ ?c "[0x6C, 0x73]" _ ?pre "[]"] by simp
  then obtain r where r: "execCommand (?pre @ Close # []) ?c [0x6C, 0x73] = Resolved r" ..
  from execCommand_truncates [of "?pre @ Close # []" ?c "[0x6C, 0x73]" r] r
  have "truncated r \<and> length (stdout r) = 25000 \<and> stderr r = [0x62]" by simp
  with r show ?thesis by auto
qed

section \<open>Properties of connect\<close>

lemma SshClient_connect_timeouts:
  "set (racedTimeouts (snd (snd (SshClient_connect k h c)))) \<subseteq> {effectiveConnectTimeout (config c)}"
proof -
  have a: "\<And>key. set (racedTimeouts (snd (snd (
      let w = ClientConnect (buildConnectConfig (config c) key) (effectiveConnectTimeout (config c)) in
            case h of
              Ready \<Rightarrow> (Inr (), c\<lparr>connected := True\<rparr>, [w])
            | TransportError m \<Rightarrow> (Inl (''SSH connection error: '' @ m), c\<lparr>connected := False\<rparr>, [w])
            | TimerFired \<Rightarrow> (Inl (''Connection timeout after '' @ show_int (effectiveConnectTimeout (config c)) @ ''ms''), c, [w, ClientEnd])
            | ConnectThrows m \<Rightarrow> (Inl m, c, [])))))
      \<subseteq> {effectiveConnectTimeout (config c)}"
    by (cases h) (simp_all add: Let_def)
  show ?thesis
    unfolding SshClient_connect_def Let_def
    using a [unfolded Let_def]
    by (cases k) (simp_all)
qed

lemma connect_wire:
  "ConnectParamsSchema_issues p = [] \<Longrightarrow> \<not> noAuth p \<Longrightarrow>
   snd (snd (connect env p s)) =
   snd (snd (SshClient_connect (keyFile env) (handshake env)
      \<lparr>config = clientConfigOf p, connected = False, handle = newClient env\<rparr>))"
proof -
  assume i: "ConnectParamsSchema_issues p = []" and n: "\<not> noAuth p"
  let ?c = "\<lparr>config = clientConfigOf p, connected = False, handle = newClient env\<rparr>"
  obtain r c1 wire where sc: "SshClient_connect (keyFile env) (handshake env) ?c = (r, c1, wire)"
    by (cases "SshClient_connect (keyFile env) (handshake env) ?c") auto
  have "snd (snd (connect env p s)) = wire"
    using i n sc
    by (cases r) (auto simp add: connect_def ConnectParamsSchema_parse_def noAuth_def Let_def
          createSession_def)
  then show ?thesis using sc by simp
qed

lemma connect_wire_refused:
  "ConnectParamsSchema_issues p \<noteq> [] \<or> noAuth p \<Longrightarrow> snd (snd (connect env p s)) = []"
  by (auto simp: connect_def ConnectParamsSchema_parse_def noAuth_def)

lemma schema_timeout_range:
  "ConnectParamsSchema_issues p = [] \<Longrightarrow>
   1000 \<le> (case connect_timeout p of None \<Rightarrow> 10000 | Some t \<Rightarrow> t)
   \<and> (case connect_timeout p of None \<Rightarrow> 10000 | Some t \<Rightarrow> t) \<le> 60000"
  by (cases "connect_timeout p")
     (auto simp: ConnectParamsSchema_issues_def outside_def split: if_splits)

lemma effectiveConnectTimeout_eq:
  "effectiveConnectTimeout cfg = (case connectTimeout cfg of None \<Rightarrow> 10000 | Some t \<Rightarrow> t)"
  by (simp add: effectiveConnectTimeout_def DEFAULT_CONNECT_TIMEOUT_def split: option.splits)

section \<open>Claims about connect\<close>

text \<open>
  C3, as the code has it. Nothing clamps the connect timeout. The schema of \<open>connect\<close>
  refuses a \<open>connect_timeout\<close> below 1 000 or above 60 000 with a validation error,
  before any handshake; so every handshake that \<open>connect\<close> starts is raced against the
  supplied value itself, which lies in [1 000, 60 000], or against the default 10 000
  when none is supplied; and a request with a password that passes the schema does
  start exactly one such handshake. The transport session itself uses whatever value
  its configuration holds, or 10 000 when it holds none.
\<close>

theorem connect_timeout_validated:
  "(connect_timeout p = Some t \<and> (t < 1000 \<or> 60000 < t) \<longrightarrow>
      (\<exists>issues. connect env p s = (Rejected (ZodError issues), s, []) \<and> ''connect_timeout'' \<in> set issues))
   \<and> (\<forall>t'\<in>set (racedTimeouts (snd (snd (connect env p s)))).
        t' = (case connect_timeout p of None \<Rightarrow> 10000 | Some t \<Rightarrow> t) \<and> 1000 \<le> t' \<and> t' \<le> 60000)
   \<and> (ConnectParamsSchema_issues p = [] \<and> truthy (password p) \<and> \<not> truthy (private_key p)
        \<and> \<not> truthy (private_key_path p) \<and> handshake env = Ready \<longrightarrow>
        racedTimeouts (snd (snd (connect env p s))) = [case connect_timeout p of None \<Rightarrow> 10000 | Some t \<Rightarrow> t])
   \<and> effectiveConnectTimeout cfg = (case connectTimeout cfg of None \<Rightarrow> 10000 | Some t \<Rightarrow> t)"
proof -
  have 1: "connect_timeout p = Some t \<and> (t < 1000 \<or> 60000 < t) \<longrightarrow>
      (\<exists>issues. connect env p s = (Rejected (ZodError issues), s, []) \<and> ''connect_timeout'' \<in> set issues)"
  proof
    assume a: "connect_timeout p = Some t \<and> (t < 1000 \<or> 60000 < t)"
    then have "outside 1000 60000 (connect_timeout p)" by (auto simp: outside_def)
    then have m: "''connect_timeout'' \<in> set (ConnectParamsSchema_issues p)"
      by (simp add: ConnectParamsSchema_issues_def)
    then have "ConnectParamsSchema_issues p \<noteq> []" by auto
    then have "connect env p s = (Rejected (ZodError (ConnectParamsSchema_issues p)), s, [])"
      by (simp add: connect_def ConnectParamsSchema_parse_def)
    with m show "\<exists>issues. connect env p s = (Rejected (ZodError issues), s, [])
        \<and> ''connect_timeout'' \<in> set issues" by blast
  qed
  have 2: "\<forall>t'\<in>set (racedTimeouts (snd (snd (connect env p s)))).
        t' = (case connect_timeout p of None \<Rightarrow> 10000 | Some t \<Rightarrow> t) \<and> 1000 \<le> t' \<and> t' \<le> 60000"
  proof (cases "ConnectParamsSchema_issues p = [] \<and> \<not> noAuth p")
    case False
    then have "snd (snd (connect env p s)) = []" using connect_wire_refused [of p env s] by blast
    then show ?thesis by simp
  next
    case True
    let ?c = "\<lparr>config = clientConfigOf p, connected = False, handle = newClient env\<rparr>"
    have e: "effectiveConnectTimeout (config ?c) = (case connect_timeout p of None \<Rightarrow> 10000 | Some t \<Rightarrow> t)"
      by (simp add: effectiveConnectTimeout_eq clientConfigOf_def)
    show ?thesis
      using SshClient_connect_timeouts [of "keyFile env" "handshake env" ?c]
        connect_wire [of p env s] True e schema_timeout_range [of p]
      by auto
  qed
  have 3: "ConnectParamsSchema_issues p = [] \<and> truthy (password p) \<and> \<not> truthy (private_key p)
        \<and> \<not> truthy (private_key_path p) \<and> handshake env = Ready \<longrightarrow>
        racedTimeouts (snd (snd (connect env p s))) = [case connect_timeout p of None \<Rightarrow> 10000 | Some t \<Rightarrow> t]"
  proof
    assume a: "ConnectParamsSchema_issues p = [] \<and> truthy (password p) \<and> \<not> truthy (private_key p)
        \<and> \<not> truthy (private_key_path p) \<and> handshake env = Ready"
    then have "\<not> noAuth p" by (simp add: noAuth_def)
    with a have "snd (snd (connect env p s)) =
       snd (snd (SshClient_connect (keyFile env) (handshake env)
          \<lparr>config = clientConfigOf p, connected = False, handle = newClient env\<rparr>))"
      using connect_wire [of p env s] by simp
    also have "racedTimeouts \<dots> = [case connect_timeout p of None \<Rightarrow> 10000 | Some t \<Rightarrow> t]"
      using a by (simp add: SshClient_connect_def Let_def clientConfigOf_def effectiveConnectTimeout_eq)
    finally show "racedTimeouts (snd (snd (connect env p s))) = [case connect_timeout p of None \<Rightarrow> 10000 | Some t \<Rightarrow> t]" .
  qed
  show ?thesis
    by (intro conjI) (rule 1, rule 2, rule 3, rule effectiveConnectTimeout_eq)
qed

theorem connect_timeout_validated_witness:
  "(\<exists>issues. connect (sampleEnv ''id-1'' 1) (sampleParams\<lparr>connect_timeout := Some 70000\<rparr>)
       (newHandlers sampleConfig) = (Rejected (ZodError issues), newHandlers sampleConfig, [])
       \<and> ''connect_timeout'' \<in> set issues)
   \<and> racedTimeouts (snd (snd (connect (sampleEnv ''id-1'' 1) (sampleParams\<lparr>connect_timeout := Some 2500\<rparr>)
       (newHandlers sampleConfig)))) = [2500]
   \<and> racedTimeouts (snd (snd (connect (sampleEnv ''id-1'' 1) sampleParams (newHandlers sampleConfig)))) = [10000]"
proof (intro conjI)
  show "\<exists>issues. connect (sampleEnv ''id-1'' 1) (sampleParams\<lparr>connect_timeout := Some 70000\<rparr>)
       (newHandlers sampleConfig) = (Rejected (ZodError issues), newHandlers sampleConfig, [])
       \<and> ''connect_timeout'' \<in> set issues"
    by (rule mp [OF connect_timeout_validated [THEN conjunct1, of _ 70000]]) simp
  have a: "ConnectParamsSchema_issues (sampleParams\<lparr>connect_timeout := Some 2500\<rparr>) = []"
    by (simp add: sampleParams_def ConnectParamsSchema_issues_def outside_def)
  have "racedTimeouts (snd (snd (connect (sampleEnv ''id-1'' 1) (sampleParams\<lparr>connect_timeout := Some 2500\<rparr>)
       (newHandlers sampleConfig)))) =
       [case connect_timeout (sampleParams\<lparr>connect_timeout := Some 2500\<rparr>) of None \<Rightarrow> 10000 | Some t \<Rightarrow> t]"
    by (rule mp [OF connect_timeout_validated [THEN conjunct2, THEN conjunct2, THEN conjunct1]])
       (simp add: a, simp add: sampleParams_def sampleEnv_def)
  then show "racedTimeouts (snd (snd (connect (sampleEnv ''id-1'' 1) (sampleParams\<lparr>connect_timeout := Some 2500\<rparr>)
       (newHandlers sampleConfig)))) = [2500]" by simp
  have b: "ConnectParamsSchema_issues sampleParams = []"
    by (simp add: sampleParams_def ConnectParamsSchema_issues_def outside_def)
  have "racedTimeouts (snd (snd (connect (sampleEnv ''id-1'' 1) sampleParams (newHandlers sampleConfig)))) =
       [case connect_timeout sampleParams of None \<Rightarrow> 10000 | Some t \<Rightarrow> t]"
    by (rule mp [OF connect_timeout_validated [THEN conjunct2, THEN conjunct2, THEN conjunct1]])
       (simp add: b, simp add: sampleParams_def sampleEnv_def)
  then show "racedTimeouts (snd (snd (connect (sampleEnv ''id-1'' 1) sampleParams (newHandlers sampleConfig)))) = [10000]"
    by (simp add: sampleParams_def)
qed

text \<open>
  C3 as stated fails: clamping 500 to [1 000, 60 000] gives 1 000, but \<open>connect\<close> with
  \<open>connect_timeout = 500\<close> is refused by the schema and starts no handshake at all, and
  a transport session configured with 500 uses 500.
\<close>

theorem connect_timeout_not_clamped_counterexample:
  "clampTo 1000 60000 500 = 1000
   \<and> connect (sampleEnv ''id-1'' 1) (sampleParams\<lparr>connect_timeout := Some 500\<rparr>) (newHandlers sampleConfig)
       = (Rejected (ZodError [''connect_timeout'']), newHandlers sampleConfig, [])
   \<and> effectiveConnectTimeout
        \<lparr>c_host = ''example.org'', c_port = 22, c_username = ''root'', c_password = Some ''secret'',
         privateKey = None, privateKeyPath = None, c_passphrase = None, c_timeout = None,
         connectTimeout = Some 500\<rparr> = 500"
  by (simp add: clampTo_def connect_def ConnectParamsSchema_parse_def ConnectParamsSchema_issues_def
        outside_def sampleParams_def effectiveConnectTimeout_def clientConfigOf_def)

text \<open>
  C7. A connect request is a request that the parameter schema accepts; what the schema
  refuses is no request to connect (parameter parsing comes first and is a matter of
  its own). For every connect request in which none of password, private-key content
  and private-key path is supplied (absent or empty), \<open>connect\<close> fails before any
  network activity (the transport is never asked to connect), with the configuration
  error whose message mentions "authentication", and leaves the orchestrator as it
  was. When the schema refuses the parameters, \<open>connect\<close> fails before any network
  activity as well.
\<close>

theorem connect_without_auth:
  "noAuth p \<longrightarrow>
     (\<exists>e. connect env p s = (Rejected e, s, []))
     \<and> (ConnectParamsSchema_issues p = [] \<longrightarrow>
          (\<exists>m. connect env p s = (Rejected (Error m), s, []) \<and> sublist ''authentication'' m))"
proof
  assume n: "noAuth p"
  have s: "sublist ''authentication''
     ''At least one authentication method is required (password, private_key, or private_key_path)''"
    unfolding sublist_def
    by (rule exI [of _ "''At least one ''"],
        rule exI [of _ "'' method is required (password, private_key, or private_key_path)''"]) simp
  show "(\<exists>e. connect env p s = (Rejected e, s, []))
     \<and> (ConnectParamsSchema_issues p = [] \<longrightarrow>
          (\<exists>m. connect env p s = (Rejected (Error m), s, []) \<and> sublist ''authentication'' m))"
    using n s by (auto simp: connect_def ConnectParamsSchema_parse_def noAuth_def)
qed

theorem connect_without_auth_witness:
  "noAuth (sampleParams\<lparr>password := None\<rparr>)
   \<and> ConnectParamsSchema_issues (sampleParams\<lparr>password := None\<rparr>) = []
   \<and> (\<exists>m. connect (sampleEnv ''id-1'' 1) (sampleParams\<lparr>password := None\<rparr>) (newHandlers sampleConfig)
         = (Rejected (Error m), newHandlers sampleConfig, []) \<and> sublist ''authentication'' m)
   \<and> noAuth (sampleParams\<lparr>password := Some ''''\<rparr>)
   \<and> (\<exists>m. connect (sampleEnv ''id-1'' 1) (sampleParams\<lparr>password := Some ''''\<rparr>) (newHandlers sampleConfig)
         = (Rejected (Error m), newHandlers sampleConfig, []) \<and> sublist ''authentication'' m)"
  using connect_without_auth [of "sampleParams\<lparr>password := None\<rparr>" "sampleEnv ''id-1'' 1"
      "newHandlers sampleConfig"]
    connect_without_auth [of "sampleParams\<lparr>password := Some ''''\<rparr>" "sampleEnv ''id-1'' 1"
      "newHandlers sampleConfig"]
  by (simp add: noAuth_def sampleParams_def ConnectParamsSchema_issues_def outside_def)

section \<open>Properties of directory listing\<close>








section \<open>Claims about directory listing\<close>





section \<open>Properties of the UTF-8 encoding\<close>

lemma decode1: "cp < 0x80 \<Longrightarrow>
  decodeFrom c0 0 lo hi (encodeCodePoint cp @ rest) = codeUnits cp @ decodeFrom 0 0 0x80 0xBF rest"
  by (simp add: encodeCodePoint_def codeUnits_def)

lemma mod_plus_192: "q < 32 \<Longrightarrow> (192 + q) mod 32 = (q::nat)"
  using mod_mult_self1 [of q 6 32] by (simp add: add.commute)

lemma mod_plus_224: "q < 16 \<Longrightarrow> (224 + q) mod 16 = (q::nat)"
  using mod_mult_self1 [of q 14 16] by (simp add: add.commute)

lemma mod_plus_240: "q < 8 \<Longrightarrow> (240 + q) mod 8 = (q::nat)"
  using mod_mult_self1 [of q 30 8] by (simp add: add.commute)

lemma mod_plus_128: "l < 64 \<Longrightarrow> (128 + l) mod 64 = (l::nat)"
  using mod_mult_self1 [of l 2 64] by (simp add: add.commute)

lemma decode2: "0x80 \<le> cp \<Longrightarrow> cp < 0x800 \<Longrightarrow>
  decodeFrom c0 0 lo hi (encodeCodePoint cp @ rest) = codeUnits cp @ decodeFrom 0 0 0x80 0xBF rest"
proof -
  assume a: "0x80 \<le> cp" "cp < 0x800"
  define q where "q = cp div 64"
  define l where "l = cp mod 64"
  have q: "2 \<le> q" "q < 32" using a by (simp_all add: q_def)
  have l: "l < 64" by (simp add: l_def)
  have cp: "cp = q * 64 + l" by (simp add: q_def l_def)
  have c: "\<not> cp < 0x80" "cp < 0x800" using a by linarith+
  have e: "encodeCodePoint cp = [192 + q, 128 + l]"
    unfolding encodeCodePoint_def q_def l_def using c by (simp only: if_False if_True)
  have b0: "\<not> 192 + q < 128" "194 \<le> 192 + q" "192 + q \<le> 223" using q by linarith+
  have b1: "128 \<le> 128 + l" "128 + l \<le> 191" using l by linarith+
  show ?thesis
    unfolding e using b0 b1 mod_plus_192 [OF q(2)] mod_plus_128 [OF l] by (simp add: cp)
qed

lemma decode3: "0x800 \<le> cp \<Longrightarrow> cp < 0x10000 \<Longrightarrow> scalar cp \<Longrightarrow>
  decodeFrom c0 0 lo hi (encodeCodePoint cp @ rest) = codeUnits cp @ decodeFrom 0 0 0x80 0xBF rest"
proof -
  assume a: "0x800 \<le> cp" "cp < 0x10000" and s: "scalar cp"
  define x where "x = cp div 64"
  define q where "q = x div 64"
  define m where "m = x mod 64"
  define l where "l = cp mod 64"
  have x: "32 \<le> x" "x < 1024" using a by (simp_all add: x_def)
  have q: "q < 16" using x(2) by (simp add: q_def)
  have m: "m < 64" by (simp add: m_def)
  have l: "l < 64" by (simp add: l_def)
  have xq: "x = q * 64 + m" by (simp add: q_def m_def)
  have cx: "cp = x * 64 + l" by (simp add: x_def l_def)
  have lo: "q = 0 \<Longrightarrow> 32 \<le> m" using x(1) xq by simp
  have hi: "q = 13 \<Longrightarrow> m < 32"
  proof -
    assume q13: "q = 13"
    then have "x < 896" using xq m by linarith
    then have "cp < 57344" using cx l by linarith
    then have "cp < 55296" using s by (simp add: scalar_def)
    then have "x < 864" using cx by linarith
    then show "m < 32" using xq q13 by linarith
  qed
  have c: "\<not> cp < 0x80" "\<not> cp < 0x800" "cp < 0x10000" using a by linarith+
  have d: "cp div 0x1000 = q" by (simp add: q_def x_def div_mult2_eq)
  have e: "encodeCodePoint cp = [224 + q, 128 + m, 128 + l]"
    unfolding encodeCodePoint_def using c
    by (simp only: if_False if_True d) (simp add: m_def l_def x_def)
  have b0: "\<not> 224 + q < 128" "\<not> (194 \<le> 224 + q \<and> 224 + q \<le> 223)"
    "224 \<le> 224 + q" "224 + q \<le> 239" using q by linarith+
  have b0': "(224 + q = 224) = (q = 0)" "(224 + q = 237) = (q = 13)" by linarith+
  have b1: "128 + m \<le> 191" "128 \<le> 128 + m" "q = 0 \<Longrightarrow> 160 \<le> 128 + m"
    "q = 13 \<Longrightarrow> 128 + m \<le> 159" using m lo hi by linarith+
  have b2: "128 \<le> 128 + l" "128 + l \<le> 191" using l by linarith+
  have r: "decodeFrom c0 0 lo hi ([224 + q, 128 + m, 128 + l] @ rest)
      = codeUnits ((q * 64 + m) * 64 + l) @ decodeFrom 0 0 0x80 0xBF rest"
    using b0 b0' b1 b2 mod_plus_224 [OF q] mod_plus_128 [OF m] mod_plus_128 [OF l]
    by (cases "q = 0"; cases "q = 13") simp_all
  show ?thesis unfolding e r by (simp add: cx xq)
qed

lemma decode4: "0x10000 \<le> cp \<Longrightarrow> cp < 0x110000 \<Longrightarrow>
  decodeFrom c0 0 lo hi (encodeCodePoint cp @ rest) = codeUnits cp @ decodeFrom 0 0 0x80 0xBF rest"
proof -
  assume a: "0x10000 \<le> cp" "cp < 0x110000"
  define x where "x = cp div 64"
  define y where "y = x div 64"
  define q where "q = y div 64"
  define n where "n = y mod 64"
  define m where "m = x mod 64"
  define l where "l = cp mod 64"
  have x: "1024 \<le> x" "x < 17408" using a by (simp_all add: x_def)
  have y: "16 \<le> y" "y < 272" using x by (simp_all add: y_def)
  have q: "q < 5" using y(2) by (simp add: q_def)
  have q8: "q < 8" using q by simp
  have n: "n < 64" by (simp add: n_def)
  have m: "m < 64" by (simp add: m_def)
  have l: "l < 64" by (simp add: l_def)
  have yq: "y = q * 64 + n" by (simp add: q_def n_def)
  have xy: "x = y * 64 + m" by (simp add: y_def m_def)
  have cx: "cp = x * 64 + l" by (simp add: x_def l_def)
  have lo: "q = 0 \<Longrightarrow> 16 \<le> n" using y(1) yq by simp
  have hi: "q = 4 \<Longrightarrow> n < 16" using y(2) yq by simp
  have c: "\<not> cp < 0x80" "\<not> cp < 0x800" "\<not> cp < 0x10000" using a by linarith+
  have d1: "cp div 0x1000 = y" by (simp add: y_def x_def div_mult2_eq)
  have d2: "cp div 0x40000 = q" by (simp add: q_def y_def x_def div_mult2_eq)
  have e: "encodeCodePoint cp = [240 + q, 128 + n, 128 + m, 128 + l]"
    unfolding encodeCodePoint_def using c
    by (simp only: if_False if_True d1 d2) (simp add: n_def m_def l_def x_def)
  have b0: "\<not> 240 + q < 128" "\<not> (194 \<le> 240 + q \<and> 240 + q \<le> 223)"
    "\<not> (224 \<le> 240 + q \<and> 240 + q \<le> 239)" "240 \<le> 240 + q" "240 + q \<le> 244"
    using q by linarith+
  have b0': "(240 + q = 240) = (q = 0)" "(240 + q = 244) = (q = 4)" by linarith+
  have b1: "128 + n \<le> 191" "128 \<le> 128 + n" "q = 0 \<Longrightarrow> 144 \<le> 128 + n"
    "q = 4 \<Longrightarrow> 128 + n \<le> 143" using n lo hi by linarith+
  have b2: "128 \<le> 128 + m" "128 + m \<le> 191" using m by linarith+
  have b3: "128 \<le> 128 + l" "128 + l \<le> 191" using l by linarith+
  have r: "decodeFrom c0 0 lo hi ([240 + q, 128 + n, 128 + m, 128 + l] @ rest)
      = codeUnits (((q * 64 + n) * 64 + m) * 64 + l) @ decodeFrom 0 0 0x80 0xBF rest"
    using b0 b0' b1 b2 b3 mod_plus_240 [OF q8] mod_plus_128 [OF n] mod_plus_128 [OF m]
      mod_plus_128 [OF l]
    by (cases "q = 0"; cases "q = 4") simp_all
  show ?thesis unfolding e r by (simp add: cx xy yq)
qed

lemma decode_encode:
  "scalar cp \<Longrightarrow>
   decodeFrom c0 0 lo hi (encodeCodePoint cp @ rest) = codeUnits cp @ decodeFrom 0 0 0x80 0xBF rest"
proof -
  assume s: "scalar cp"
  then have b: "cp < 0x110000" by (auto simp: scalar_def)
  consider "cp < 0x80" | "0x80 \<le> cp \<and> cp < 0x800" | "0x800 \<le> cp \<and> cp < 0x10000"
    | "0x10000 \<le> cp" by linarith
  then show ?thesis
  proof cases
    case 1 then show ?thesis by (rule decode1)
  next
    case 2 then show ?thesis by (simp add: decode2)
  next
    case 3 then show ?thesis using s by (simp add: decode3)
  next
    case 4 then show ?thesis using b by (simp add: decode4)
  qed
qed

lemma unat16_bound: "unat (c :: 16 word) < 65536"
  using unsigned_less [of c, where ?'a = nat] by simp

lemma codeUnits_unit: "codeUnits (unat (c :: 16 word)) = [c]"
  using unat16_bound [of c] by (simp add: codeUnits_def)

lemma codeUnits_pair:
  "isHighSurrogate c \<Longrightarrow> isLowSurrogate d \<Longrightarrow>
   codeUnits (0x10000 + (unat c - 0xD800) * 0x400 + (unat d - 0xDC00)) = [c, d]"
proof -
  assume h: "isHighSurrogate c" and l: "isLowSurrogate d"
  define a where "a = unat c - 0xD800"
  define b where "b = unat d - 0xDC00"
  have a: "unat c = 0xD800 + a" using h unfolding a_def isHighSurrogate_def by linarith
  have b: "unat d = 0xDC00 + b" "b < 0x400"
    using l unfolding b_def isLowSurrogate_def by linarith+
  have 1: "(a * 0x400 + b) div 0x400 = a" using b(2) by simp
  have 2: "(a * 0x400 + b) mod 0x400 = b" using b(2) by simp
  have "codeUnits (0x10000 + a * 0x400 + b) = [of_nat (0xD800 + a), of_nat (0xDC00 + b)]"
    using 1 2 by (simp add: codeUnits_def add.assoc)
  also have "\<dots> = [of_nat (unat c), of_nat (unat d)]" by (simp only: a b(1))
  finally show ?thesis by (simp add: a_def b_def)
qed

lemma scalar_unit: "\<not> isHighSurrogate c \<Longrightarrow> \<not> isLowSurrogate c \<Longrightarrow> scalar (unat c)"
  using unat16_bound [of c]
  by (simp add: scalar_def isHighSurrogate_def isLowSurrogate_def) linarith

lemma scalar_pair:
  "isHighSurrogate c \<Longrightarrow> isLowSurrogate d \<Longrightarrow>
   scalar (0x10000 + (unat c - 0xD800) * 0x400 + (unat d - 0xDC00))"
proof -
  assume h: "isHighSurrogate c" and l: "isLowSurrogate d"
  have "unat c - 0xD800 \<le> 0x3FF" using h unfolding isHighSurrogate_def by linarith
  then have "(unat c - 0xD800) * 0x400 \<le> 0x3FF * 0x400" by (rule mult_le_mono1)
  moreover have "unat d - 0xDC00 \<le> 0x3FF" using l unfolding isLowSurrogate_def by linarith
  ultimately show ?thesis by (simp add: scalar_def)
qed

lemma utf8Bytes_unit:
  "\<not> isHighSurrogate c \<Longrightarrow> \<not> isLowSurrogate c \<Longrightarrow>
   utf8Bytes (c # cs) = encodeCodePoint (unat c) @ utf8Bytes cs"
  by (cases cs) simp_all

lemma utf8Bytes_pair:
  "isHighSurrogate c \<Longrightarrow> isLowSurrogate d \<Longrightarrow>
   utf8Bytes (c # d # cs) =
   encodeCodePoint (0x10000 + (unat c - 0xD800) * 0x400 + (unat d - 0xDC00)) @ utf8Bytes cs"
  by simp

lemma decodeFrom_fresh: "decodeFrom c0 0 lo hi bs = decodeFrom 0 0 0x80 0xBF bs"
  by (cases bs) simp_all

lemma decode_utf8Bytes:
  "wellFormed s \<Longrightarrow> decodeFrom 0 0 0x80 0xBF (utf8Bytes s @ rest) = s @ decodeFrom 0 0 0x80 0xBF rest"
proof (induction s rule: wellFormed.induct)
  case 1
  show ?case by simp
next
  case (2 c)
  then have n: "\<not> isHighSurrogate c" "\<not> isLowSurrogate c" by simp_all
  have "decodeFrom 0 0 0x80 0xBF (encodeCodePoint (unat c) @ rest)
      = codeUnits (unat c) @ decodeFrom 0 0 0x80 0xBF rest"
    using scalar_unit [OF n] by (rule decode_encode)
  then show ?case using n by (simp add: codeUnits_unit)
next
  case (3 c d cs)
  show ?case
  proof (cases "isHighSurrogate c")
    case True
    then have l: "isLowSurrogate d" and w: "wellFormed cs" using "3.prems" by simp_all
    let ?cp = "0x10000 + (unat c - 0xD800) * 0x400 + (unat d - 0xDC00)"
    have "decodeFrom 0 0 0x80 0xBF (utf8Bytes (c # d # cs) @ rest)
        = decodeFrom 0 0 0x80 0xBF (encodeCodePoint ?cp @ (utf8Bytes cs @ rest))"
      by (simp only: utf8Bytes_pair [OF True l] append_assoc)
    also have "\<dots> = codeUnits ?cp @ decodeFrom 0 0 0x80 0xBF (utf8Bytes cs @ rest)"
      using scalar_pair [OF True l] by (rule decode_encode)
    also have "\<dots> = [c, d] @ (cs @ decodeFrom 0 0 0x80 0xBF rest)"
      by (simp only: codeUnits_pair [OF True l] "3.IH"(1) [OF True w])
    finally show ?thesis by simp
  next
    case False
    then have n: "\<not> isLowSurrogate c" and w: "wellFormed (d # cs)" using "3.prems" by simp_all
    have "decodeFrom 0 0 0x80 0xBF (utf8Bytes (c # d # cs) @ rest)
        = decodeFrom 0 0 0x80 0xBF (encodeCodePoint (unat c) @ (utf8Bytes (d # cs) @ rest))"
      by (simp only: utf8Bytes_unit [OF False n] append_assoc)
    also have "\<dots> = codeUnits (unat c) @ decodeFrom 0 0 0x80 0xBF (utf8Bytes (d # cs) @ rest)"
      using scalar_unit [OF False n] by (rule decode_encode)
    also have "\<dots> = [c] @ ((d # cs) @ decodeFrom 0 0 0x80 0xBF rest)"
      by (simp only: codeUnits_unit "3.IH"(2) [OF False w])
    finally show ?thesis by simp
  qed
qed

lemma encodeCodePoint_bytes: "cp < 0x110000 \<Longrightarrow> b \<in> set (encodeCodePoint cp) \<Longrightarrow> b < 256"
proof -
  assume a: "cp < 0x110000" and b: "b \<in> set (encodeCodePoint cp)"
  have m: "\<And>k. k mod 64 < (64::nat)" by simp
  have 1: "cp < 0x800 \<Longrightarrow> cp div 64 < 32" by simp
  have 2: "cp < 0x10000 \<Longrightarrow> cp div 4096 < 16" by simp
  have 3: "cp div 262144 < 5" using a by simp
  show ?thesis
    using a b 1 2 3 m [of cp] m [of "cp div 64"] m [of "cp div 4096"]
    by (auto simp: encodeCodePoint_def split: if_splits)
qed

lemma encodeCodePoint_length: "1 \<le> length (encodeCodePoint cp)"
  by (simp add: encodeCodePoint_def)

lemma encodeCodePoint_length4: "0x10000 \<le> cp \<Longrightarrow> length (encodeCodePoint cp) = 4"
  by (simp add: encodeCodePoint_def)

lemma utf8Bytes_bytes: "b \<in> set (utf8Bytes s) \<Longrightarrow> b < 256"
proof (induction s arbitrary: b rule: utf8Bytes.induct)
  case 1
  then show ?case by simp
next
  case (2 c)
  have "unat c < 0x110000" using unat16_bound [of c] by simp
  then show ?case using 2 encodeCodePoint_bytes [of "unat c" b]
    by (auto split: if_splits)
next
  case (3 c d cs)
  have u: "unat c < 0x110000" using unat16_bound [of c] by simp
  show ?case
  proof (cases "isHighSurrogate c \<and> isLowSurrogate d")
    case True
    let ?cp = "0x10000 + (unat c - 0xD800) * 0x400 + (unat d - 0xDC00)"
    have "?cp < 0x110000" using scalar_pair [of c d] True by (simp add: scalar_def)
    then show ?thesis
      using True "3.prems" "3.IH"(1) [OF True] encodeCodePoint_bytes [of ?cp b]
      by auto
  next
    case False
    show ?thesis
    proof (cases "isHighSurrogate c \<or> isLowSurrogate c")
      case True
      then show ?thesis using False "3.prems" "3.IH"(2) [OF False True] by auto
    next
      case F2: False
      then show ?thesis
        using False "3.prems" "3.IH"(3) [OF False F2] u encodeCodePoint_bytes [of "unat c" b]
        by auto
    qed
  qed
qed

lemma utf8Bytes_length: "length s \<le> length (utf8Bytes s)"
proof (induction s rule: utf8Bytes.induct)
  case 1
  show ?case by simp
next
  case (2 c)
  show ?case using encodeCodePoint_length [of "unat c"] by simp
next
  case (3 c d cs)
  let ?cp = "0x10000 + (unat c - 0xD800) * 0x400 + (unat d - 0xDC00)"
  have 4: "length (encodeCodePoint ?cp) = 4" by (rule encodeCodePoint_length4) simp
  show ?case
  proof (cases "isHighSurrogate c \<and> isLowSurrogate d")
    case True
    then show ?thesis using "3.IH"(1) [OF True] 4 by simp
  next
    case False
    show ?thesis
    proof (cases "isHighSurrogate c \<or> isLowSurrogate c")
      case True
      then show ?thesis using False "3.IH"(2) [OF False True] by auto
    next
      case F2: False
      then show ?thesis
        using False "3.IH"(3) [OF False F2] encodeCodePoint_length [of "unat c"] by auto
    qed
  qed
qed

lemma unat_of_nat_bytes:
  "\<forall>b\<in>set bs. b < 256 \<Longrightarrow> map unat (map of_nat bs :: 8 word list) = bs"
  by (induction bs) (simp_all add: unat_of_nat)

lemma toString_from:
  "Buffer_toString (take n (Buffer_from s)) = decodeFrom 0 0 0x80 0xBF (take n (utf8Bytes s))"
proof -
  have "\<forall>b\<in>set (utf8Bytes s). b < 256" using utf8Bytes_bytes [of _ s] by blast
  then have e: "map unat (map of_nat (utf8Bytes s) :: 8 word list) = utf8Bytes s"
    by (rule unat_of_nat_bytes)
  have "map unat (take n (Buffer_from s)) = take n (map unat (map of_nat (utf8Bytes s) :: 8 word list))"
    unfolding Buffer_from_def by (rule take_map [symmetric])
  then have "map unat (take n (Buffer_from s)) = take n (utf8Bytes s)" by (simp only: e)
  then show ?thesis unfolding Buffer_toString_def by (rule arg_cong)
qed

lemma roundtrip_whole:
  "wellFormed s \<Longrightarrow> length (Buffer_from s) \<le> n \<Longrightarrow> Buffer_toString (take n (Buffer_from s)) = s"
proof -
  assume w: "wellFormed s" and l: "length (Buffer_from s) \<le> n"
  then have "take n (utf8Bytes s) = utf8Bytes s" by (simp add: Buffer_from_def)
  then show ?thesis using decode_utf8Bytes [OF w, of "[]"] by (simp add: toString_from)
qed

lemma ascii_bytes: "isAscii s \<Longrightarrow> utf8Bytes s = map unat s"
proof (induction s)
  case Nil
  show ?case by simp
next
  case (Cons c cs)
  then have c: "unat c < 0x80" and r: "isAscii cs" by (simp_all add: isAscii_def)
  have n: "\<not> isHighSurrogate c" "\<not> isLowSurrogate c"
    using c by (simp_all add: isHighSurrogate_def isLowSurrogate_def)
  have "encodeCodePoint (unat c) = [unat c]" using c by (simp add: encodeCodePoint_def)
  then show ?case using Cons.IH [OF r] by (simp only: utf8Bytes_unit [OF n]) simp
qed

lemma ascii_wellFormed: "isAscii s \<Longrightarrow> wellFormed s"
proof (induction s rule: wellFormed.induct)
  case 1
  show ?case by simp
next
  case (2 c)
  then show ?case by (simp add: isAscii_def isHighSurrogate_def isLowSurrogate_def)
next
  case (3 c d cs)
  then have c: "unat c < 0x80" and r: "isAscii (d # cs)" by (simp_all add: isAscii_def)
  have n: "\<not> isHighSurrogate c" "\<not> isLowSurrogate c"
    using c by (simp_all add: isHighSurrogate_def isLowSurrogate_def)
  show ?case using n "3.IH"(2) [OF n(1) r] by simp
qed

lemma roundtrip_ascii:
  "isAscii s \<Longrightarrow> length (Buffer_from s) = length s
     \<and> Buffer_toString (take n (Buffer_from s)) = take n s"
proof -
  assume a: "isAscii s"
  have t: "isAscii (take n s)" using a by (auto simp: isAscii_def dest: in_set_takeD)
  have "take n (utf8Bytes s) = utf8Bytes (take n s)"
    by (simp add: ascii_bytes [OF a] ascii_bytes [OF t] take_map)
  then have "Buffer_toString (take n (Buffer_from s)) = take n s"
    using decode_utf8Bytes [OF ascii_wellFormed [OF t], of "[]"] by (simp add: toString_from)
  moreover have "length (Buffer_from s) = length s"
    by (simp add: Buffer_from_def ascii_bytes [OF a])
  ultimately show ?thesis by simp
qed

section \<open>Properties of reading and writing files\<close>

lemma writeFile_ok:
  "sftp sc \<noteq> None \<Longrightarrow>
   snd (writeFile sc None fs path str) = fs(path \<mapsto> Buffer_from str)
   \<and> (\<exists>w. fst (writeFile sc None fs path str) = Inr w \<and> wf_size w = length (Buffer_from str)
          \<and> wf_path w = path \<and> wf_success w)"
  by (auto simp: writeFile_def ensureSftp_def Let_def)

lemma readFile_present:
  "sftp sc \<noteq> None \<Longrightarrow> fs path = Some b \<Longrightarrow> b \<noteq> [] \<Longrightarrow>
   readFile sc None fs path (int CHARACTER_LIMIT) =
     Inr \<lparr>rf_path = path, content = Buffer_toString (take 25000 b), rf_size = length b,
          rf_truncated = (25000 < length b)\<rparr>"
proof -
  assume s: "sftp sc \<noteq> None" and f: "fs path = Some b" and n: "b \<noteq> []"
  have l: "1 \<le> int (length b)" using n by (cases b) simp_all
  have m: "take (nat (min (int (length b)) 25000)) b = take 25000 b"
    by (cases "length b \<le> 25000") (simp_all add: min_def)
  have r: "\<not> (min (int (length b)) 25000 - 1 < 0)" using l by linarith
  show ?thesis
    using s f r
    by (auto simp: readFile_def SftpClient_stat_def createReadStream_def ensureSftp_def Let_def
          CHARACTER_LIMIT_def m)
qed

lemma Buffer_from_nonempty: "str \<noteq> [] \<Longrightarrow> Buffer_from str \<noteq> []"
  using utf8Bytes_length [of str] by (cases str) (auto simp: Buffer_from_def)

lemma utf8Bytes_e_acute: "utf8Bytes (replicate n 0xE9) = concat (replicate n [0xC3, 0xA9])"
proof (induction n)
  case 0
  show ?case by simp
next
  case (Suc n)
  have n: "\<not> isHighSurrogate 0xE9" "\<not> isLowSurrogate 0xE9"
    by (simp_all add: isHighSurrogate_def isLowSurrogate_def)
  have e: "encodeCodePoint (unat (0xE9 :: 16 word)) = [0xC3, 0xA9]"
    by (simp add: encodeCodePoint_def)
  show ?case using Suc by (simp only: replicate_Suc utf8Bytes_unit [OF n] e concat.simps)
qed

lemma wellFormed_e_acute: "wellFormed (replicate n 0xE9)"
proof (induction n rule: less_induct)
  case (less n)
  have n: "\<not> isHighSurrogate 0xE9" "\<not> isLowSurrogate 0xE9"
    by (simp_all add: isHighSurrogate_def isLowSurrogate_def)
  show ?case
  proof (cases n)
    case 0
    then show ?thesis by simp
  next
    case (Suc m)
    show ?thesis
    proof (cases m)
      case 0
      then show ?thesis using Suc n by simp
    next
      case (Suc k)
      have "wellFormed (replicate (Suc k) 0xE9)" using less [of "Suc k"] \<open>n = Suc m\<close> Suc by simp
      then show ?thesis using \<open>n = Suc m\<close> Suc n by simp
    qed
  qed
qed

lemma take_pairs: "take (2 * k) (concat (replicate (k + m) [a, b])) = concat (replicate k [a, b])"
  by (induction k) simp_all

lemma e_acute_bytes:
  "length (Buffer_from (replicate 12501 0xE9)) = 25002
   \<and> Buffer_toString (take 25000 (Buffer_from (replicate 12501 0xE9))) = replicate 12500 0xE9"
proof -
  have l: "length (Buffer_from (replicate 12501 0xE9)) = 25002"
    by (simp add: Buffer_from_def utf8Bytes_e_acute length_concat sum_list_replicate)
  have "take (2 * 12500) (utf8Bytes (replicate (12500 + 1) 0xE9)) = utf8Bytes (replicate 12500 0xE9)"
    by (simp only: utf8Bytes_e_acute take_pairs)
  then have t: "take 25000 (utf8Bytes (replicate 12501 0xE9)) = utf8Bytes (replicate 12500 0xE9)"
    by simp
  have "Buffer_toString (take 25000 (Buffer_from (replicate 12501 0xE9)))
      = decodeFrom 0 0 0x80 0xBF (utf8Bytes (replicate 12500 0xE9) @ [])"
    by (simp only: toString_from t append_Nil2)
  also have "\<dots> = replicate 12500 0xE9 @ decodeFrom 0 0 0x80 0xBF []"
    using wellFormed_e_acute by (rule decode_utf8Bytes)
  finally show ?thesis using l by simp
qed

section \<open>Claims about reading and writing files\<close>

text \<open>
  C2, as the code has it. The budget of \<open>readFile\<close> counts the bytes of the file, not
  the characters of the content. On an initialised channel \<open>writeFile(path, content)\<close>
  succeeds and reports the number of bytes of the UTF-8 encoding of the content; for
  non-empty content, \<open>readFile(path)\<close> afterwards returns the decoding of the first
  25 000 bytes of that encoding, with \<open>size\<close> the full number of bytes and \<open>truncated\<close>
  set exactly when that number exceeds 25 000. So the content comes back unchanged when
  it has no lone surrogate and its encoding has at most 25 000 bytes; for content of
  ASCII characters the bytes are the characters and what comes back is the first
  25 000 characters; and content longer than 25 000 characters always has more than
  25 000 bytes, hence \<open>truncated = true\<close>.
\<close>

theorem writeFile_then_readFile:
  "sftp sc \<noteq> None \<longrightarrow>
     (\<exists>w. fst (writeFile sc None fs path str) = Inr w \<and> wf_size w = length (Buffer_from str))
     \<and> (str \<noteq> [] \<longrightarrow>
          readFile sc None (snd (writeFile sc None fs path str)) path (int CHARACTER_LIMIT) =
            Inr \<lparr>rf_path = path, content = Buffer_toString (take 25000 (Buffer_from str)),
                 rf_size = length (Buffer_from str),
                 rf_truncated = (25000 < length (Buffer_from str))\<rparr>)
     \<and> (wellFormed str \<and> length (Buffer_from str) \<le> 25000 \<longrightarrow>
          Buffer_toString (take 25000 (Buffer_from str)) = str)
     \<and> (isAscii str \<longrightarrow>
          length (Buffer_from str) = length str
          \<and> Buffer_toString (take 25000 (Buffer_from str)) = take 25000 str)
     \<and> length str \<le> length (Buffer_from str)"
proof
  assume s: "sftp sc \<noteq> None"
  note w = writeFile_ok [OF s, of fs path str]
  have 1: "\<exists>w. fst (writeFile sc None fs path str) = Inr w \<and> wf_size w = length (Buffer_from str)"
    using w by blast
  have 2: "str \<noteq> [] \<longrightarrow>
          readFile sc None (snd (writeFile sc None fs path str)) path (int CHARACTER_LIMIT) =
            Inr \<lparr>rf_path = path, content = Buffer_toString (take 25000 (Buffer_from str)),
                 rf_size = length (Buffer_from str),
                 rf_truncated = (25000 < length (Buffer_from str))\<rparr>"
  proof
    assume "str \<noteq> []"
    then have n: "Buffer_from str \<noteq> []" by (rule Buffer_from_nonempty)
    have f: "snd (writeFile sc None fs path str) path = Some (Buffer_from str)" using w by simp
    show "readFile sc None (snd (writeFile sc None fs path str)) path (int CHARACTER_LIMIT) =
            Inr \<lparr>rf_path = path, content = Buffer_toString (take 25000 (Buffer_from str)),
                 rf_size = length (Buffer_from str),
                 rf_truncated = (25000 < length (Buffer_from str))\<rparr>"
      using s f n by (rule readFile_present [of sc "snd (writeFile sc None fs path str)" path])
  qed
  have 3: "wellFormed str \<and> length (Buffer_from str) \<le> 25000 \<longrightarrow>
          Buffer_toString (take 25000 (Buffer_from str)) = str"
    using roundtrip_whole [of str 25000] by blast
  have 4: "isAscii str \<longrightarrow>
          length (Buffer_from str) = length str
          \<and> Buffer_toString (take 25000 (Buffer_from str)) = take 25000 str"
    using roundtrip_ascii [of str 25000] by blast
  have 5: "length str \<le> length (Buffer_from str)"
    using utf8Bytes_length [of str] by (simp add: Buffer_from_def)
  show "(\<exists>w. fst (writeFile sc None fs path str) = Inr w \<and> wf_size w = length (Buffer_from str))
     \<and> (str \<noteq> [] \<longrightarrow>
          readFile sc None (snd (writeFile sc None fs path str)) path (int CHARACTER_LIMIT) =
            Inr \<lparr>rf_path = path, content = Buffer_toString (take 25000 (Buffer_from str)),
                 rf_size = length (Buffer_from str),
                 rf_truncated = (25000 < length (Buffer_from str))\<rparr>)
     \<and> (wellFormed str \<and> length (Buffer_from str) \<le> 25000 \<longrightarrow>
          Buffer_toString (take 25000 (Buffer_from str)) = str)
     \<and> (isAscii str \<longrightarrow>
          length (Buffer_from str) = length str
          \<and> Buffer_toString (take 25000 (Buffer_from str)) = take 25000 str)
     \<and> length str \<le> length (Buffer_from str)"
    by (intro conjI) (rule 1, rule 2, rule 3, rule 4, rule 5)
qed

theorem writeFile_then_readFile_witness:
  "readFile openChannel None (snd (writeFile openChannel None Map.empty [0x2F, 0x66] [0x68, 0x69]))
       [0x2F, 0x66] (int CHARACTER_LIMIT)
     = Inr \<lparr>rf_path = [0x2F, 0x66], content = [0x68, 0x69], rf_size = 2, rf_truncated = False\<rparr>
   \<and> readFile openChannel None
         (snd (writeFile openChannel None Map.empty [0x2F, 0x66] (replicate 25001 0x61)))
         [0x2F, 0x66] (int CHARACTER_LIMIT)
     = Inr \<lparr>rf_path = [0x2F, 0x66], content = replicate 25000 0x61, rf_size = 25001,
            rf_truncated = True\<rparr>"
proof -
  have o: "sftp openChannel \<noteq> None" by (simp add: openChannel_def)
  have a1: "isAscii [0x68, 0x69]" by (simp add: isAscii_def)
  have a2: "isAscii (replicate 25001 0x61)" by (simp add: isAscii_def)
  have n1: "[0x68, 0x69] \<noteq> ([] :: jsstring)" by simp
  have n2: "replicate 25001 0x61 \<noteq> ([] :: jsstring)" by simp
  note t1 = writeFile_then_readFile [of openChannel Map.empty "[0x2F, 0x66]" "[0x68, 0x69]", THEN mp, OF o]
  note t2 = writeFile_then_readFile [of openChannel Map.empty "[0x2F, 0x66]" "replicate 25001 0x61",
      THEN mp, OF o]
  note k1 = t1 [THEN conjunct2, THEN conjunct2, THEN conjunct2, THEN conjunct1, THEN mp, OF a1]
  note k2 = t2 [THEN conjunct2, THEN conjunct2, THEN conjunct2, THEN conjunct1, THEN mp, OF a2]
  note q1 = t1 [THEN conjunct2, THEN conjunct1, THEN mp, OF n1]
  note q2 = t2 [THEN conjunct2, THEN conjunct1, THEN mp, OF n2]
  have r1: "readFile openChannel None (snd (writeFile openChannel None Map.empty [0x2F, 0x66] [0x68, 0x69]))
       [0x2F, 0x66] (int CHARACTER_LIMIT)
     = Inr \<lparr>rf_path = [0x2F, 0x66], content = [0x68, 0x69], rf_size = 2, rf_truncated = False\<rparr>"
    using q1 [unfolded k1 [THEN conjunct1] k1 [THEN conjunct2]] by simp
  have r2: "readFile openChannel None
         (snd (writeFile openChannel None Map.empty [0x2F, 0x66] (replicate 25001 0x61)))
         [0x2F, 0x66] (int CHARACTER_LIMIT)
     = Inr \<lparr>rf_path = [0x2F, 0x66], content = replicate 25000 0x61, rf_size = 25001,
            rf_truncated = True\<rparr>"
    using q2 [unfolded k2 [THEN conjunct1] k2 [THEN conjunct2]] by simp
  show ?thesis using r1 r2 by simp
qed

text \<open>
  C2 as stated fails: a content of 12 501 letters U+00E9 is at most 25 000 characters
  long, but its encoding has 25 002 bytes, so \<open>readFile\<close> returns the first 12 500
  letters with \<open>truncated = true\<close>; and a content that is one lone surrogate comes back
  as U+FFFD.
\<close>

theorem readFile_counts_bytes_counterexample:
  "length (replicate 12501 (0xE9 :: 16 word)) \<le> 25000
   \<and> readFile openChannel None
         (snd (writeFile openChannel None Map.empty [0x2F, 0x66] (replicate 12501 0xE9)))
         [0x2F, 0x66] (int CHARACTER_LIMIT)
     = Inr \<lparr>rf_path = [0x2F, 0x66], content = replicate 12500 0xE9, rf_size = 25002,
            rf_truncated = True\<rparr>
   \<and> replicate 12500 0xE9 \<noteq> replicate 12501 (0xE9 :: 16 word)
   \<and> readFile openChannel None (snd (writeFile openChannel None Map.empty [0x2F, 0x66] [0xD83D]))
         [0x2F, 0x66] (int CHARACTER_LIMIT)
     = Inr \<lparr>rf_path = [0x2F, 0x66], content = [0xFFFD], rf_size = 3, rf_truncated = False\<rparr>"
proof -
  have o: "sftp openChannel \<noteq> None" by (simp add: openChannel_def)
  have w: "\<And>str. snd (writeFile openChannel None Map.empty [0x2F, 0x66] str) [0x2F, 0x66]
      = Some (Buffer_from str)"
    using writeFile_ok [OF o, of Map.empty "[0x2F, 0x66]"] by simp
  have n1: "Buffer_from (replicate 12501 0xE9) \<noteq> []" by (rule Buffer_from_nonempty) simp
  have r1: "readFile openChannel None
         (snd (writeFile openChannel None Map.empty [0x2F, 0x66] (replicate 12501 0xE9)))
         [0x2F, 0x66] (int CHARACTER_LIMIT)
     = Inr \<lparr>rf_path = [0x2F, 0x66], content = replicate 12500 0xE9, rf_size = 25002,
            rf_truncated = True\<rparr>"
    using readFile_present [of openChannel
        "snd (writeFile openChannel None Map.empty [0x2F, 0x66] (replicate 12501 0xE9))"
        "[0x2F, 0x66]" "Buffer_from (replicate 12501 0xE9)", OF o w n1] e_acute_bytes
    by simp
  have b2: "Buffer_from [0xD83D] = [0xEF, 0xBF, 0xBD]"
    by (simp add: Buffer_from_def isHighSurrogate_def)
  have d2: "Buffer_toString [0xEF, 0xBF, 0xBD] = [0xFFFD]"
    by (simp add: Buffer_toString_def codeUnits_def)
  have n2: "Buffer_from [0xD83D] \<noteq> []" by (simp add: b2)
  have r2: "readFile openChannel None (snd (writeFile openChannel None Map.empty [0x2F, 0x66] [0xD83D]))
         [0x2F, 0x66] (int CHARACTER_LIMIT)
     = Inr \<lparr>rf_path = [0x2F, 0x66], content = [0xFFFD], rf_size = 3, rf_truncated = False\<rparr>"
    using readFile_present [of openChannel
        "snd (writeFile openChannel None Map.empty [0x2F, 0x66] [0xD83D])"
        "[0x2F, 0x66]" "Buffer_from [0xD83D]", OF o w n2]
    by (simp add: b2 d2)
  have ne: "replicate 12500 0xE9 \<noteq> replicate 12501 (0xE9 :: 16 word)"
  proof
    assume "replicate 12500 0xE9 = replicate 12501 (0xE9 :: 16 word)"
    then have "length (replicate 12500 (0xE9 :: 16 word)) = length (replicate 12501 (0xE9 :: 16 word))"
      by (rule arg_cong)
    then show False by simp
  qed
  show ?thesis using r1 r2 ne by simp
qed

end
